theory Spec2Isabelle
  imports Complex_Main
begin

section \<open>JavaScript numbers\<close>

text \<open>
  A JavaScript number is a double. A finite double is represented by the rational it
  denotes; the three values that are not finite are constructors of their own, and the
  sign of zero is not represented (\<open>Num 0\<close> stands for \<open>+0\<close>). The arithmetic below
  is exact, where the code rounds to the nearest double. The two agree on whole
  numbers (of magnitude below \<open>2^53\<close>): their sums, differences and products are
  whole, and the quotient of an array length by a whole number has the same ceiling
  rounded or not. On fractions they need not agree (7 / 0.7 is 10 in doubles, and the
  double 0.7 is a little less than seven tenths); every theorem below that computes is
  stated for whole numbers.
\<close>

datatype js_number = Num rat | PosInfinity | NegInfinity | NaN

fun js_neg :: "js_number \<Rightarrow> js_number" where
  "js_neg (Num a) = Num (- a)"
| "js_neg PosInfinity = NegInfinity"
| "js_neg NegInfinity = PosInfinity"
| "js_neg NaN = NaN"

fun js_add :: "js_number \<Rightarrow> js_number \<Rightarrow> js_number" where
  "js_add NaN b = NaN"
| "js_add a NaN = NaN"
| "js_add (Num a) (Num b) = Num (a + b)"
| "js_add (Num a) b = b"
| "js_add a (Num b) = a"
| "js_add PosInfinity PosInfinity = PosInfinity"
| "js_add NegInfinity NegInfinity = NegInfinity"
| "js_add PosInfinity NegInfinity = NaN"
| "js_add NegInfinity PosInfinity = NaN"

definition js_sub :: "js_number \<Rightarrow> js_number \<Rightarrow> js_number" where
  "js_sub a b = js_add a (js_neg b)"

text \<open>The infinity with the sign of a finite, non-zero factor.\<close>

definition signed_infinity :: "bool \<Rightarrow> js_number" where
  "signed_infinity positive = (if positive then PosInfinity else NegInfinity)"

fun js_mul :: "js_number \<Rightarrow> js_number \<Rightarrow> js_number" where
  "js_mul NaN b = NaN"
| "js_mul a NaN = NaN"
| "js_mul (Num a) (Num b) = Num (a * b)"
| "js_mul (Num a) PosInfinity = (if a = 0 then NaN else signed_infinity (0 < a))"
| "js_mul (Num a) NegInfinity = (if a = 0 then NaN else signed_infinity (a < 0))"
| "js_mul PosInfinity (Num b) = (if b = 0 then NaN else signed_infinity (0 < b))"
| "js_mul NegInfinity (Num b) = (if b = 0 then NaN else signed_infinity (b < 0))"
| "js_mul PosInfinity PosInfinity = PosInfinity"
| "js_mul NegInfinity NegInfinity = PosInfinity"
| "js_mul PosInfinity NegInfinity = NegInfinity"
| "js_mul NegInfinity PosInfinity = NegInfinity"

text \<open>
  Division never raises: a finite number divided by zero is an infinity (or \<open>NaN\<close> for
  \<open>0 / 0\<close>), and a finite number divided by an infinity is zero.
\<close>

fun js_div :: "js_number \<Rightarrow> js_number \<Rightarrow> js_number" where
  "js_div NaN b = NaN"
| "js_div a NaN = NaN"
| "js_div (Num a) (Num b) =
     (if b = 0 then (if a = 0 then NaN else signed_infinity (0 < a)) else Num (a / b))"
| "js_div (Num a) b = Num 0"
| "js_div PosInfinity (Num b) = signed_infinity (0 \<le> b)"
| "js_div NegInfinity (Num b) = signed_infinity (b < 0)"
| "js_div a b = NaN"

fun Math_ceil :: "js_number \<Rightarrow> js_number" where
  "Math_ceil (Num a) = Num (of_int \<lceil>a\<rceil>)"
| "Math_ceil a = a"

text \<open>\<open>a === b\<close> on numbers: \<open>NaN\<close> equals nothing, not even itself.\<close>

definition js_strict_eq :: "js_number \<Rightarrow> js_number \<Rightarrow> bool" where
  "js_strict_eq a b = (a \<noteq> NaN \<and> a = b)"

text \<open>\<open>a <= b\<close> on numbers: every comparison with \<open>NaN\<close> is false.\<close>

fun js_le :: "js_number \<Rightarrow> js_number \<Rightarrow> bool" where
  "js_le NaN b = False"
| "js_le a NaN = False"
| "js_le (Num a) (Num b) = (a \<le> b)"
| "js_le NegInfinity b = True"
| "js_le a PosInfinity = True"
| "js_le a b = False"

text \<open>\<open>a < b\<close> on numbers.\<close>

fun js_lt :: "js_number \<Rightarrow> js_number \<Rightarrow> bool" where
  "js_lt NaN b = False"
| "js_lt a NaN = False"
| "js_lt (Num a) (Num b) = (a < b)"
| "js_lt PosInfinity b = False"
| "js_lt a NegInfinity = False"
| "js_lt a b = True"

text \<open>The length of an array, as a number.\<close>

definition js_length :: "'a list \<Rightarrow> js_number" where
  "js_length xs = Num (of_nat (length xs))"

subsection \<open>Arrays\<close>

text \<open>
  \<open>Array.prototype.slice(start, end)\<close>. Each argument goes through
  \<open>ToIntegerOrInfinity\<close> (\<open>NaN\<close> is 0, a fraction is truncated towards zero); a
  negative index counts from the end; both are clamped to the array; an empty or
  reversed range gives the empty array.
\<close>

definition truncate_toward_zero :: "rat \<Rightarrow> int" where
  "truncate_toward_zero a = (if 0 \<le> a then \<lfloor>a\<rfloor> else \<lceil>a\<rceil>)"

fun relative_index :: "nat \<Rightarrow> js_number \<Rightarrow> nat" where
  "relative_index len NaN = 0"
| "relative_index len NegInfinity = 0"
| "relative_index len PosInfinity = len"
| "relative_index len (Num a) =
     (let i = truncate_toward_zero a
      in if i < 0 then nat (max (int len + i) 0) else nat (min i (int len)))"

definition Array_slice :: "'a list \<Rightarrow> js_number \<Rightarrow> js_number \<Rightarrow> 'a list" where
  "Array_slice xs start stop =
     (let k = relative_index (length xs) start;
          final = relative_index (length xs) stop
      in take (final - k) (drop k xs))"

text \<open>
  \<open>xs[n]\<close>: the element when \<open>n\<close> is a whole number inside the array, \<open>undefined\<close>
  (here \<open>None\<close>) for every other number.
\<close>

fun Array_get :: "'a list \<Rightarrow> js_number \<Rightarrow> 'a option" where
  "Array_get xs (Num a) =
     (if a = of_int \<lfloor>a\<rfloor> \<and> 0 \<le> a \<and> \<lfloor>a\<rfloor> < int (length xs)
      then Some (xs ! nat \<lfloor>a\<rfloor>) else None)"
| "Array_get xs a = None"

text \<open>\<open>xs.join(sep)\<close> on an array of strings.\<close>

fun Array_join :: "string \<Rightarrow> string list \<Rightarrow> string" where
  "Array_join sep [] = []"
| "Array_join sep [x] = x"
| "Array_join sep (x # y # ys) = x @ sep @ Array_join sep (y # ys)"

text \<open>Decimal digits of a natural number, as a template literal prints an array index.\<close>

fun decimal :: "nat \<Rightarrow> string" where
  "decimal n =
     (if n < 10 then [''0123456789'' ! n]
      else decimal (n div 10) @ [''0123456789'' ! (n mod 10)])"

section \<open>Values, errors and the transport\<close>

text \<open>
  The arguments the setters inspect at run time. \<open>'m\<close> is the library's
  \<open>MessageEmbed\<close> class: \<open>JsEmbed m\<close> is an instance of it, and nothing else is.
\<close>

datatype 'm js_value =
    JsUndefined
  | JsNull
  | JsBoolean bool
  | JsNumber js_number
  | JsString string
  | JsObject
  | JsEmbed 'm
  | JsArray "'m js_value list"


text \<open>\<open>typeof v === 'number'\<close>.\<close>

fun typeof_number :: "'m js_value \<Rightarrow> bool" where
  "typeof_number (JsNumber n) = True"
| "typeof_number v = False"

text \<open>\<open>v instanceof MessageEmbed\<close>.\<close>

fun instanceof_MessageEmbed :: "'m js_value \<Rightarrow> bool" where
  "instanceof_MessageEmbed (JsEmbed m) = True"
| "instanceof_MessageEmbed v = False"

datatype error = TypeError string | Error string | RangeError string

text \<open>
  A method mutates \<open>this\<close> and then returns or throws; what it has written before a
  throw stays written. Both outcomes therefore carry the state.
\<close>

datatype 's outcome = Returned 's | Thrown error 's

fun state_of :: "'s outcome \<Rightarrow> 's" where
  "state_of (Returned s) = s"
| "state_of (Thrown e s) = s"

fun has_returned :: "'s outcome \<Rightarrow> bool" where
  "has_returned (Returned s) = True"
| "has_returned (Thrown e s) = False"

text \<open>
  What the session does to its channel: \<open>channel.send(content, { embed })\<close> and
  \<open>message.edit(content, { embed })\<close> on the message with the given handle, where
  the content is absent (\<open>undefined\<close> or \<open>null\<close>) or a string. The navigation
  engine of the specification also removes a message and sends the text of a prompt.
\<close>

datatype 'a action =
    Send "string option" 'a
  | Edit nat "string option" 'a
  | Remove nat
  | Prompt string

text \<open>The text a message shows above its embed, for the actions that show a message.\<close>

fun content_of :: "'a action \<Rightarrow> string option" where
  "content_of (Send c a) = c"
| "content_of (Edit m c a) = c"
| "content_of (Remove m) = None"
| "content_of (Prompt t) = Some t"

text \<open>The lifetime of a session (the reaction listener is attached while \<open>Listening\<close>).\<close>

datatype ending = Deleted | Expired | Failed

datatype lifecycle = Idle | Listening | Terminated ending

datatype navigation = Back | Jump | Forward | First | Last | Delete

section \<open>The session\<close>

text \<open>
  The fields the two modes inherit. The base class is not among the sources; the fields
  the modes read and write (\<open>array\<close>, \<open>page\<close>, \<open>pages\<close>, \<open>pageIndicator\<close>,
  \<open>clientAssets.message\<close>, the channel, the \<open>start\<close> listeners) are named as the
  code names them, the others are those of the specification's data model. The channel
  is the list of the actions performed on it, oldest first, and the handle the next
  sent message gets.
\<close>

record ('e, 'a) PaginationEmbed =
  array :: "'e list"
  page :: js_number
  pages :: js_number
  pageIndicator :: bool
  message :: "nat option"
  channel :: "'a action list"
  next_message :: nat
  start_listeners :: nat
  emitted :: "string list"
  authorizedUsers :: "nat list"
  navigationEmojis :: "navigation \<Rightarrow> string option"
  jumpPromptText :: string
  timeoutMs :: nat
  timer :: nat
  state :: lifecycle

text \<open>
  Modelled from the spec: the base class's \<open>_loadList\<close>, which both modes call last,
  is not among the sources. After the render the specification has it attach the
  reaction listener and start the idle timer.
\<close>

definition PaginationEmbed_loadList ::
  "bool \<Rightarrow> ('e, 'a, 'z) PaginationEmbed_scheme \<Rightarrow> ('e, 'a, 'z) PaginationEmbed_scheme outcome"
where
  "PaginationEmbed_loadList callNavigation s = Returned (s\<lparr>state := Listening, timer := timeoutMs s\<rparr>)"

text \<open>
  The page indicator both modes compute in \<open>_loadList\<close>. The template literal converts
  \<open>page\<close> and \<open>pages\<close> with the language's number-to-string conversion, which is the
  parameter \<open>toString\<close>.
\<close>

definition shouldIndicate ::
  "(js_number \<Rightarrow> string) \<Rightarrow> ('e, 'a, 'z) PaginationEmbed_scheme \<Rightarrow> string option"
where
  "shouldIndicate toString s =
     (if pageIndicator s
      then (if js_strict_eq (pages s) (Num 1) then None
            else Some (''Page '' @ toString (page s) @ '' of '' @ toString (pages s)))
      else None)"

section \<open>FieldsEmbed\<close>

text \<open>
  A field of the template embed: its value is a string, or a function from an element
  to the text of its line (\<open>formatField\<close>). The function stands for the user's function
  followed by the conversion to a string that \<open>join\<close> applies.
\<close>

datatype 'e field_value = Formatter "'e \<Rightarrow> string" | Text string

fun is_function :: "'e field_value \<Rightarrow> bool" where
  "is_function (Formatter f) = True"
| "is_function (Text t) = False"

record 'e EmbedField =
  field_name :: string
  field_value :: "'e field_value"
  field_inline :: bool

text \<open>
  The library's \<open>RichEmbed\<close>: the fields, and the styling the session never looks at.
  \<open>addField\<close> checks the field before it appends it and throws a \<open>RangeError\<close> when
  the embed is full or the name or the value is too long or blank. The library is not
  part of the sources, so its check is the parameter \<open>limits\<close>: from the number of
  fields the embed has, the name and the value to the error thrown, or \<open>None\<close> for a
  field the library accepts.
\<close>

record 'e RichEmbed =
  title :: "string option"
  description :: "string option"
  color :: "nat option"
  embed_fields :: "'e EmbedField list"

type_synonym field_limits = "nat \<Rightarrow> string \<Rightarrow> string \<Rightarrow> error option"

definition RichEmbed_addField ::
  "field_limits \<Rightarrow> string \<Rightarrow> string \<Rightarrow> bool \<Rightarrow> 'e RichEmbed \<Rightarrow> 'e RichEmbed outcome"
where
  "RichEmbed_addField limits n v i e =
     (case limits (length (embed_fields e)) n v of
        Some err \<Rightarrow> Thrown err e
      | None \<Rightarrow>
          Returned (e\<lparr>embed_fields := embed_fields e @
            [\<lparr>field_name = n, field_value = Text v, field_inline = i\<rparr>]\<rparr>))"

record 'e FieldsEmbed = "('e, 'e RichEmbed) PaginationEmbed" +
  elementsPerPage :: js_number
  embed :: "'e RichEmbed"

text \<open>The getter \<open>elementList\<close>: the elements of the current page.\<close>

definition elementList :: "'e FieldsEmbed \<Rightarrow> 'e list" where
  "elementList s =
     (let begin = js_mul (js_sub (page s) (Num 1)) (elementsPerPage s);
          stop = js_add begin (elementsPerPage s)
      in Array_slice (array s) begin stop)"

definition formatField ::
  "string \<Rightarrow> 'e field_value \<Rightarrow> bool \<Rightarrow> 'e FieldsEmbed \<Rightarrow> 'e FieldsEmbed outcome"
where
  "formatField n v i s =
     (if \<not> is_function v
      then Thrown (TypeError ''formatField() value parameter only takes a function.'') s
      else Returned (s\<lparr>embed := (embed s)\<lparr>embed_fields := embed_fields (embed s) @
             [\<lparr>field_name = n, field_value = v, field_inline = i\<rparr>]\<rparr>\<rparr>))"

definition setElementsPerPage :: "'m js_value \<Rightarrow> 'e FieldsEmbed \<Rightarrow> 'e FieldsEmbed outcome" where
  "setElementsPerPage max' s =
     (case max' of
        JsNumber n \<Rightarrow> Returned (s\<lparr>elementsPerPage := n\<rparr>)
      | _ \<Rightarrow> Thrown (TypeError ''setElementsPerPage() only accepts number type.'') s)"

text \<open>
  The text \<open>_drawList\<close> gives a field of the template: the lines of the current page,
  joined by line feeds, for a formatted field, and the text of any other field.
\<close>

definition drawnText :: "'e FieldsEmbed \<Rightarrow> 'e EmbedField \<Rightarrow> string" where
  "drawnText s f =
     (case field_value f of
        Formatter g \<Rightarrow> Array_join [CHR 0x0A] (map g (elementList s))
      | Text t \<Rightarrow> t)"

text \<open>
  \<open>_drawList\<close> copies the template embed, gives the copy an empty field array of its
  own, and adds one field per template field to the copy; it stops at the first field
  the library rejects, and throws. The method returns the copy; the session is
  threaded through so that what the method does to the session can be stated.
\<close>

definition drawField ::
  "field_limits \<Rightarrow> 'e EmbedField \<Rightarrow> 'e RichEmbed \<times> 'e FieldsEmbed \<Rightarrow>
   ('e RichEmbed \<times> 'e FieldsEmbed) outcome"
where
  "drawField limits f es =
     (case es of (e, s) \<Rightarrow>
        (case RichEmbed_addField limits (field_name f) (drawnText s f) (field_inline f) e of
           Returned e' \<Rightarrow> Returned (e', s)
         | Thrown err e' \<Rightarrow> Thrown err (e', s)))"

fun drawFields ::
  "field_limits \<Rightarrow> 'e EmbedField list \<Rightarrow> 'e RichEmbed \<times> 'e FieldsEmbed \<Rightarrow>
   ('e RichEmbed \<times> 'e FieldsEmbed) outcome"
where
  "drawFields limits [] es = Returned es"
| "drawFields limits (f # fs) es =
     (case drawField limits f es of
        Returned es' \<Rightarrow> drawFields limits fs es'
      | Thrown err es' \<Rightarrow> Thrown err es')"

definition drawList ::
  "field_limits \<Rightarrow> 'e FieldsEmbed \<Rightarrow> ('e RichEmbed \<times> 'e FieldsEmbed) outcome"
where
  "drawList limits s =
     drawFields limits (embed_fields (embed s)) ((embed s)\<lparr>embed_fields := []\<rparr>, s)"

text \<open>
  The same method with the field arrays of the embeds in a store, a map from addresses
  to arrays, so that what the method writes, and where, can be stated. The copy made
  by \<open>new RichEmbed(this.embed)\<close> may share the template's array or not; the next
  statement, \<open>embed.fields = []\<close>, gives it the newly allocated array at \<open>next_array\<close>
  either way. The loop is the iteration protocol of the language: it reads the length
  and the element of the template's array anew at every step, and \<open>addField\<close> checks
  and pushes onto the copy's array. The result is \<open>None\<close> for a loop that does not
  end, and otherwise tells whether the method has returned or thrown.
\<close>

record 'e store =
  arrays :: "nat \<Rightarrow> 'e EmbedField list"
  next_array :: nat

definition store_addField ::
  "field_limits \<Rightarrow> nat \<Rightarrow> string \<Rightarrow> string \<Rightarrow> bool \<Rightarrow> 'e store \<Rightarrow> 'e store outcome"
where
  "store_addField limits a n v i h =
     (case limits (length (arrays h a)) n v of
        Some err \<Rightarrow> Thrown err h
      | None \<Rightarrow>
          Returned (h\<lparr>arrays := (arrays h)(a := arrays h a @
            [\<lparr>field_name = n, field_value = Text v, field_inline = i\<rparr>])\<rparr>))"

partial_function (option) drawLoop ::
  "field_limits \<Rightarrow> 'e FieldsEmbed \<Rightarrow> nat \<Rightarrow> nat \<Rightarrow> nat \<Rightarrow> 'e store \<Rightarrow> 'e store outcome option"
where
  "drawLoop limits s template copy i h =
     (if i < length (arrays h template)
      then (let added = store_addField limits copy (field_name (arrays h template ! i))
                          (drawnText s (arrays h template ! i))
                          (field_inline (arrays h template ! i)) h
            in if has_returned added
               then drawLoop limits s template copy (Suc i) (state_of added)
               else Some added)
      else Some (Returned h))"

text \<open>
  The store in which the array at an address holds the fields of the embed a render
  at the level of values has come to, returned or thrown.
\<close>

fun copy_into :: "nat \<Rightarrow> 'e store \<Rightarrow> ('e RichEmbed \<times> 'x) outcome \<Rightarrow> 'e store outcome" where
  "copy_into a h (Returned es) = Returned (h\<lparr>arrays := (arrays h)(a := embed_fields (fst es))\<rparr>)"
| "copy_into a h (Thrown err es) = Thrown err (h\<lparr>arrays := (arrays h)(a := embed_fields (fst es))\<rparr>)"

fun with_copy :: "nat \<Rightarrow> 'e store outcome \<Rightarrow> (nat \<times> 'e store) outcome" where
  "with_copy copy (Returned h) = Returned (copy, h)"
| "with_copy copy (Thrown err h) = Thrown err (copy, h)"

definition drawList_store ::
  "field_limits \<Rightarrow> 'e FieldsEmbed \<Rightarrow> nat \<Rightarrow> 'e store \<Rightarrow> (nat \<times> 'e store) outcome option"
where
  "drawList_store limits s template h =
     (let copy = next_array h;
          h1 = h\<lparr>arrays := (arrays h)(copy := []), next_array := Suc copy\<rparr>
      in map_option (with_copy copy) (drawLoop limits s template copy 0 h1))"

text \<open>
  \<open>_loadList\<close>: render, then edit the message of the session when there is one, send a
  new message and keep its handle when there is none, then hand over to the base class.
  When the render throws, nothing of this happens.
\<close>

definition FieldsEmbed_loadList ::
  "field_limits \<Rightarrow> (js_number \<Rightarrow> string) \<Rightarrow> bool \<Rightarrow> 'e FieldsEmbed \<Rightarrow> 'e FieldsEmbed outcome"
where
  "FieldsEmbed_loadList limits toString callNavigation s0 =
     (case drawList limits s0 of
        Thrown err es \<Rightarrow> Thrown err (snd es)
      | Returned es \<Rightarrow>
          (case es of (e, s) \<Rightarrow>
             let indicator = shouldIndicate toString s in
             PaginationEmbed_loadList callNavigation
               (case message s of
                  Some m \<Rightarrow> s\<lparr>channel := channel s @ [Edit m indicator e]\<rparr>
                | None \<Rightarrow> s\<lparr>channel := channel s @ [Send indicator e],
                            message := Some (next_message s),
                            next_message := Suc (next_message s)\<rparr>)))"

text \<open>
  The loop of \<open>build\<close> over the fields the template had: a formatted field goes back
  through \<open>formatField\<close>, any other through the library's \<open>addField\<close>, which may
  reject it.
\<close>

fun restoreFields ::
  "field_limits \<Rightarrow> 'e EmbedField list \<Rightarrow> 'e FieldsEmbed \<Rightarrow> 'e FieldsEmbed outcome"
where
  "restoreFields limits [] s = Returned s"
| "restoreFields limits (f # fs) s =
     (case field_value f of
        Formatter g \<Rightarrow>
          (case formatField (field_name f) (field_value f) (field_inline f) s of
             Returned s' \<Rightarrow> restoreFields limits fs s'
           | Thrown err s' \<Rightarrow> Thrown err s')
      | Text t \<Rightarrow>
          (case RichEmbed_addField limits (field_name f) t (field_inline f) (embed s) of
             Returned e' \<Rightarrow> restoreFields limits fs (s\<lparr>embed := e'\<rparr>)
           | Thrown err e' \<Rightarrow> Thrown err s))"

text \<open>
  \<open>build\<close>. \<open>_verify\<close> belongs to the base class, which is not among the sources: it is
  the parameter \<open>verify\<close>, a check that passes (\<open>None\<close>) or throws, as the
  specification describes it.
\<close>

definition FieldsEmbed_build ::
  "field_limits \<Rightarrow> (js_number \<Rightarrow> string) \<Rightarrow> ('e FieldsEmbed \<Rightarrow> error option) \<Rightarrow>
   'e FieldsEmbed \<Rightarrow> 'e FieldsEmbed outcome"
where
  "FieldsEmbed_build limits toString verify s0 =
     (let s1 = s0\<lparr>pages := Math_ceil (js_div (js_length (array s0)) (elementsPerPage s0))\<rparr>
      in case verify s1 of
           Some e \<Rightarrow> Thrown e s1
         | None \<Rightarrow>
             (case restoreFields limits (embed_fields (embed s1))
                     (s1\<lparr>embed := (embed s1)\<lparr>embed_fields := []\<rparr>\<rparr>) of
                Thrown e s2 \<Rightarrow> Thrown e s2
              | Returned s2 \<Rightarrow>
                  if length (filter (\<lambda>f. is_function (field_value f)) (embed_fields (embed s2))) = 0
                  then Thrown (Error ''Cannot invoke FieldsEmbed class without at least one formatted field to paginate.'') s2
                  else FieldsEmbed_loadList limits toString True
                         (if start_listeners s2 \<noteq> 0 then s2\<lparr>emitted := emitted s2 @ [''start'']\<rparr> else s2)))"

section \<open>Embeds\<close>

text \<open>
  In this mode every element of the array is a finished page: an instance of the
  library's \<open>MessageEmbed\<close>. An element of type \<open>'m\<close> is the instance itself, its
  identity: the same instance can stand at several places of the array. What is sent
  to the channel is the element of the current page, or \<open>undefined\<close> when there is
  none.
\<close>

type_synonym 'm Embeds = "('m, 'm option) PaginationEmbed"

text \<open>The getter \<open>currentEmbed\<close>: \<open>this.array[this.page - 1]\<close>.\<close>

definition currentEmbed :: "'m Embeds \<Rightarrow> 'm option" where
  "currentEmbed s = Array_get (array s) (js_sub (page s) (Num 1))"

text \<open>
  \<open>setArray\<close>. The loop looks for the first element that is not a \<open>MessageEmbed\<close>;
  \<open>firstInvalid i xs\<close> is its index, counted from \<open>i\<close>.
\<close>

fun firstInvalid :: "nat \<Rightarrow> 'm js_value list \<Rightarrow> nat option" where
  "firstInvalid i [] = None"
| "firstInvalid i (x # xs) =
     (if instanceof_MessageEmbed x then firstInvalid (Suc i) xs else Some i)"

fun embedsOf :: "'m js_value list \<Rightarrow> 'm list" where
  "embedsOf [] = []"
| "embedsOf (JsEmbed m # xs) = m # embedsOf xs"
| "embedsOf (x # xs) = embedsOf xs"

definition Embeds_setArray :: "'m js_value \<Rightarrow> 'm Embeds \<Rightarrow> 'm Embeds outcome" where
  "Embeds_setArray array' s =
     (case array' of
        JsArray xs \<Rightarrow>
          if length xs = 0
          then Thrown (TypeError ''Cannot invoke Embeds class without a valid array to paginate.'') s
          else (case firstInvalid 0 xs of
                  Some i \<Rightarrow>
                    Thrown (TypeError (''(MessageEmbeds['' @ decimal i @
                      '']) Cannot invoke Embeds class with an invalid MessageEmbed instance.'')) s
                | None \<Rightarrow> Returned (s\<lparr>array := embedsOf xs\<rparr>))
      | _ \<Rightarrow> Thrown (TypeError ''Cannot invoke Embeds class without a valid array to paginate.'') s)"

text \<open>
  The setters that style every embed of the array. What the instances hold is a store
  of objects, a map from an instance to its content (of type \<open>'o\<close>), which the setters
  take and return next to the session. Each setter returns at once on a falsy argument;
  otherwise it calls the library's method of the same name on every element of the
  array, in order, and an instance that stands at two places is called twice. The
  library's method is the first parameter: from the arguments and the content of the
  embed to the content as the call leaves it, or to the error the call throws; the
  loop, and the setter, end with the first error.
\<close>

fun forEachEmbed :: "('o \<Rightarrow> error + 'o) \<Rightarrow> 'm list \<Rightarrow> ('m \<Rightarrow> 'o) \<Rightarrow> ('m \<Rightarrow> 'o) outcome" where
  "forEachEmbed method [] objects = Returned objects"
| "forEachEmbed method (el # els) objects =
     (case method (objects el) of
        Inl err \<Rightarrow> Thrown err objects
      | Inr changed \<Rightarrow> forEachEmbed method els (objects(el := changed)))"











text \<open>
  \<open>_loadList\<close> edits the message of the session and hands over to the base class. It
  has no other branch: without a message, reading \<open>edit\<close> of \<open>undefined\<close> throws a
  \<open>TypeError\<close> (the text of that error is the engine's; here it only names the cause).
\<close>

definition Embeds_loadList ::
  "(js_number \<Rightarrow> string) \<Rightarrow> bool \<Rightarrow> 'm Embeds \<Rightarrow> 'm Embeds outcome"
where
  "Embeds_loadList toString callNavigation s =
     (let indicator = shouldIndicate toString s in
      case message s of
        None \<Rightarrow> Thrown (TypeError ''clientAssets.message is undefined'') s
      | Some m \<Rightarrow>
          PaginationEmbed_loadList callNavigation
            (s\<lparr>channel := channel s @ [Edit m indicator (currentEmbed s)]\<rparr>))"

definition Embeds_build ::
  "(js_number \<Rightarrow> string) \<Rightarrow> ('m Embeds \<Rightarrow> error option) \<Rightarrow> 'm Embeds \<Rightarrow> 'm Embeds outcome"
where
  "Embeds_build toString verify s0 =
     (let s1 = s0\<lparr>pages := js_length (array s0)\<rparr>
      in case verify s1 of
           Some e \<Rightarrow> Thrown e s1
         | None \<Rightarrow> Embeds_loadList toString True (s1\<lparr>emitted := emitted s1 @ [''start'']\<rparr>))"

section \<open>The navigation engine\<close>

text \<open>
  Modelled from the spec: the engine that consumes reaction events lives in the base
  class, which is not among the sources. What follows is the transition of section 4.3
  of the specification, step by step, on the fields above.
\<close>

record reaction_event =
  emoji :: string
  user :: nat
  timestamp :: nat

text \<open>\<open>Math.max\<close> and \<open>Math.min\<close> of two numbers: \<open>NaN\<close> when either is.\<close>

definition Math_max :: "js_number \<Rightarrow> js_number \<Rightarrow> js_number" where
  "Math_max a b = (if a = NaN \<or> b = NaN then NaN else if js_le a b then b else a)"

definition Math_min :: "js_number \<Rightarrow> js_number \<Rightarrow> js_number" where
  "Math_min a b = (if a = NaN \<or> b = NaN then NaN else if js_le a b then a else b)"

text \<open>The follow-up of the jump dialog is parsed as a decimal integer with an optional sign.\<close>

fun position :: "char \<Rightarrow> nat \<Rightarrow> string \<Rightarrow> nat option" where
  "position c i [] = None"
| "position c i (d # ds) = (if c = d then Some i else position c (Suc i) ds)"

definition digit_of :: "char \<Rightarrow> nat option" where
  "digit_of c = position c 0 ''0123456789''"

fun parse_digits :: "nat \<Rightarrow> string \<Rightarrow> nat option" where
  "parse_digits acc [] = Some acc"
| "parse_digits acc (c # cs) =
     (case digit_of c of None \<Rightarrow> None | Some d \<Rightarrow> parse_digits (10 * acc + d) cs)"

definition parse_integer :: "string \<Rightarrow> int option" where
  "parse_integer t =
     (case t of
        [] \<Rightarrow> None
      | c # cs \<Rightarrow>
          if c = CHR ''-''
          then (if cs = [] then None else map_option (\<lambda>n. - int n) (parse_digits 0 cs))
          else map_option int (parse_digits 0 t))"

text \<open>Step 2: the navigation bindings are looked up first.\<close>

definition resolve_navigation :: "(navigation \<Rightarrow> string option) \<Rightarrow> string \<Rightarrow> navigation option" where
  "resolve_navigation bindings e =
     find (\<lambda>a. bindings a = Some e) [Back, Jump, Forward, First, Last, Delete]"

text \<open>
  Step 3 for the actions that move the page. The follow-up of the jump dialog is
  \<open>None\<close> when its own timeout fired, the text the user sent otherwise.
\<close>

fun navigate ::
  "navigation \<Rightarrow> string option \<Rightarrow> ('e, 'a, 'z) PaginationEmbed_scheme \<Rightarrow> ('e, 'a, 'z) PaginationEmbed_scheme"
where
  "navigate Back followup s = s\<lparr>page := Math_max (Num 1) (js_sub (page s) (Num 1))\<rparr>"
| "navigate Forward followup s = s\<lparr>page := Math_min (pages s) (js_add (page s) (Num 1))\<rparr>"
| "navigate First followup s = s\<lparr>page := Num 1\<rparr>"
| "navigate Last followup s = s\<lparr>page := pages s\<rparr>"
| "navigate Jump followup s =
     (let prompted = s\<lparr>channel := channel s @ [Prompt (jumpPromptText s)]\<rparr>
      in case followup of
           None \<Rightarrow> prompted
         | Some t \<Rightarrow>
             (case parse_integer t of
                None \<Rightarrow> prompted
              | Some n \<Rightarrow>
                  if js_le (Num 1) (Num (of_int n)) \<and> js_le (Num (of_int n)) (pages s)
                  then prompted\<lparr>page := Num (of_int n)\<rparr>
                  else prompted))"
| "navigate Delete followup s = s"

text \<open>
  Step 4: the artifact of the page is rendered again by the mode (the parameter
  \<open>render\<close> gives the content and the artifact), the displayed message is edited, and
  the idle timer starts anew.
\<close>

definition rerender ::
  "(('e, 'a, 'z) PaginationEmbed_scheme \<Rightarrow> string option \<times> 'a) \<Rightarrow>
   ('e, 'a, 'z) PaginationEmbed_scheme \<Rightarrow> ('e, 'a, 'z) PaginationEmbed_scheme"
where
  "rerender render s =
     (case message s of
        None \<Rightarrow> s\<lparr>timer := timeoutMs s\<rparr>
      | Some m \<Rightarrow>
          s\<lparr>channel := channel s @ [Edit m (fst (render s)) (snd (render s))],
            timer := timeoutMs s\<rparr>)"

text \<open>
  One reaction event. The function hooks are the parameter \<open>hooks\<close>, from a symbol to
  the callback bound to it; a callback receives the acting user and the session.
\<close>

definition dispatch ::
  "(string \<Rightarrow> (nat \<Rightarrow> ('e, 'a, 'z) PaginationEmbed_scheme \<Rightarrow> ('e, 'a, 'z) PaginationEmbed_scheme) option) \<Rightarrow>
   (('e, 'a, 'z) PaginationEmbed_scheme \<Rightarrow> string option \<times> 'a) \<Rightarrow>
   reaction_event \<times> string option \<Rightarrow>
   ('e, 'a, 'z) PaginationEmbed_scheme \<Rightarrow> ('e, 'a, 'z) PaginationEmbed_scheme"
where
  "dispatch hooks render ev s =
     (if state s \<noteq> Listening then s
      else if authorizedUsers s \<noteq> [] \<and> user (fst ev) \<notin> set (authorizedUsers s) then s
      else case resolve_navigation (navigationEmojis s) (emoji (fst ev)) of
             Some Delete \<Rightarrow>
               (case message s of
                  None \<Rightarrow> s\<lparr>state := Terminated Deleted, timer := 0\<rparr>
                | Some m \<Rightarrow>
                    s\<lparr>channel := channel s @ [Remove m], state := Terminated Deleted, timer := 0\<rparr>)
           | Some a \<Rightarrow> rerender render (navigate a (snd ev) s)
           | None \<Rightarrow>
               (case hooks (emoji (fst ev)) of
                  None \<Rightarrow> s
                | Some callback \<Rightarrow> rerender render (callback (user (fst ev)) s)))"

text \<open>The events of a session, one after the other.\<close>

definition dispatch_all ::
  "(string \<Rightarrow> (nat \<Rightarrow> ('e, 'a, 'z) PaginationEmbed_scheme \<Rightarrow> ('e, 'a, 'z) PaginationEmbed_scheme) option) \<Rightarrow>
   (('e, 'a, 'z) PaginationEmbed_scheme \<Rightarrow> string option \<times> 'a) \<Rightarrow>
   (reaction_event \<times> string option) list \<Rightarrow>
   ('e, 'a, 'z) PaginationEmbed_scheme \<Rightarrow> ('e, 'a, 'z) PaginationEmbed_scheme"
where
  "dispatch_all hooks render evs s = fold (dispatch hooks render) evs s"

text \<open>The invariant of the data model, \<open>1 \<le> page \<le> pages\<close>.\<close>

definition page_in_range :: "('e, 'a, 'z) PaginationEmbed_scheme \<Rightarrow> bool" where
  "page_in_range s = (js_le (Num 1) (page s) \<and> js_le (page s) (pages s))"

text \<open>
  The contract of a function hook: whatever else it changes, it leaves \<open>page\<close> and
  \<open>pages\<close> as they are.
\<close>

definition keeps_page ::
  "(nat \<Rightarrow> ('e, 'a, 'z) PaginationEmbed_scheme \<Rightarrow> ('e, 'a, 'z) PaginationEmbed_scheme) \<Rightarrow> bool"
where
  "keeps_page callback = (\<forall>u s. page (callback u s) = page s \<and> pages (callback u s) = pages s)"

section \<open>Concrete sessions\<close>

text \<open>
  The inputs at which the theorems below are evaluated. Numbers are printed in decimal
  (\<open>printNumber\<close>, exact on the whole numbers a page count takes), \<open>_verify\<close> passes,
  and the navigation symbols are written in ASCII.
\<close>

fun printNumber :: "js_number \<Rightarrow> string" where
  "printNumber (Num a) = (if a < 0 then ''-'' else []) @ decimal (nat \<bar>truncate_toward_zero a\<bar>)"
| "printNumber PosInfinity = ''Infinity''"
| "printNumber NegInfinity = ''-Infinity''"
| "printNumber NaN = ''NaN''"

text \<open>
  The check of \<open>addField\<close> in the library the code imports (discord.js 11): at most 25
  fields, a name of at most 256 and a value of at most 1024 characters, neither of
  them blank (without a character that is not white space).
\<close>

definition blank :: "string \<Rightarrow> bool" where
  "blank t = list_all (\<lambda>c. c \<in> set [CHR '' '', CHR 0x09, CHR 0x0A, CHR 0x0B, CHR 0x0C, CHR 0x0D]) t"

definition RichEmbed_limits :: field_limits where
  "RichEmbed_limits count n v =
     (if 25 \<le> count then Some (RangeError ''RichEmbeds may not exceed 25 fields.'')
      else if 256 < length n then Some (RangeError ''RichEmbed field names may not exceed 256 characters.'')
      else if blank n then Some (RangeError ''RichEmbed field names may not be empty.'')
      else if 1024 < length v then Some (RangeError ''RichEmbed field values may not exceed 1024 characters.'')
      else if blank v then Some (RangeError ''RichEmbed field values may not be empty.'')
      else None)"

definition verifyPasses :: "'s \<Rightarrow> error option" where
  "verifyPasses s = None"

definition exampleEmojis :: "navigation \<Rightarrow> string option" where
  "exampleEmojis a =
     (case a of Back \<Rightarrow> Some ''<'' | Jump \<Rightarrow> Some ''^'' | Forward \<Rightarrow> Some ''>''
      | Delete \<Rightarrow> Some ''x'' | First \<Rightarrow> None | Last \<Rightarrow> None)"

definition exampleTemplate :: "('e \<Rightarrow> string) list \<Rightarrow> 'e RichEmbed" where
  "exampleTemplate formatters =
     \<lparr>title = Some ''Members'', description = None, color = None,
      embed_fields =
        \<lparr>field_name = ''About'', field_value = Text ''A list'', field_inline = False\<rparr> #
        map (\<lambda>g. \<lparr>field_name = ''Name'', field_value = Formatter g, field_inline = True\<rparr>) formatters\<rparr>"

definition exampleFieldsEmbed ::
  "'e list \<Rightarrow> js_number \<Rightarrow> js_number \<Rightarrow> nat option \<Rightarrow> ('e \<Rightarrow> string) list \<Rightarrow> 'e FieldsEmbed"
where
  "exampleFieldsEmbed elements perPage current handle formatters =
     \<lparr>array = elements, page = current, pages = Num 0, pageIndicator = True,
      message = handle, channel = [], next_message = 7, start_listeners = 0, emitted = [],
      authorizedUsers = [], navigationEmojis = exampleEmojis, jumpPromptText = ''Which page?'',
      timeoutMs = 30000, timer = 0, state = Idle,
      elementsPerPage = perPage, embed = exampleTemplate formatters\<rparr>"

definition exampleEmbeds :: "'m list \<Rightarrow> js_number \<Rightarrow> nat option \<Rightarrow> 'm Embeds" where
  "exampleEmbeds elements current handle =
     \<lparr>array = elements, page = current, pages = Num 0, pageIndicator = True,
      message = handle, channel = [], next_message = 7, start_listeners = 0, emitted = [],
      authorizedUsers = [], navigationEmojis = exampleEmojis, jumpPromptText = ''Which page?'',
      timeoutMs = 30000, timer = 0, state = Idle\<rparr>"

text \<open>A formatter whose line is empty for every element.\<close>

definition noText :: "string \<Rightarrow> string" where
  "noText x = []"

text \<open>A store with the given fields at address 2 and nothing elsewhere.\<close>

definition exampleStore :: "'e EmbedField list \<Rightarrow> 'e store" where
  "exampleStore fs = \<lparr>arrays = (\<lambda>a. if a = 2 then fs else []), next_array = 5\<rparr>"

text \<open>A hook that reverses the backing array, and the registry that binds it to \<open>r\<close>.\<close>

definition reverseHook :: "nat \<Rightarrow> 'm Embeds \<Rightarrow> 'm Embeds" where
  "reverseHook u s = s\<lparr>array := rev (array s)\<rparr>"

definition exampleHooks :: "string \<Rightarrow> (nat \<Rightarrow> 'm Embeds \<Rightarrow> 'm Embeds) option" where
  "exampleHooks e = (if e = ''r'' then Some reverseHook else None)"

definition exampleRender :: "'m Embeds \<Rightarrow> string option \<times> 'm option" where
  "exampleRender s = (shouldIndicate printNumber s, currentEmbed s)"

definition press :: "string \<Rightarrow> reaction_event \<times> string option" where
  "press e = (\<lparr>emoji = e, user = 1, timestamp = 0\<rparr>, None)"

text \<open>
  Stand-ins for the library methods of \<open>MessageEmbed\<close>, on embeds whose content is a
  string. A setter appends its first argument when that is a string, and throws for
  any other argument. \<open>addField\<close> appends the name and the value and, as the library
  does, rejects a field whose name or value is the empty string.
\<close>

definition exampleMethod :: "nat js_value \<Rightarrow> string \<Rightarrow> error + string" where
  "exampleMethod v m = (case v of JsString t \<Rightarrow> Inr (m @ t) | _ \<Rightarrow> Inl (TypeError ''not a string''))"




text \<open>The embeds 0 and 1, with the contents \<open>a\<close> and \<open>b\<close>.\<close>

definition exampleObjects :: "nat \<Rightarrow> string" where
  "exampleObjects m = (if m = 0 then ''a'' else if m = 1 then ''b'' else [])"

section \<open>Numbers and slices\<close>






section \<open>Rendering in FieldsEmbed\<close>

lemma drawField_session: "snd (state_of (drawField limits f (e, s))) = s"
  by (simp add: drawField_def split: outcome.split)

lemma drawFields_session: "snd (state_of (drawFields limits fs (e, s))) = s"
proof (induction fs arbitrary: e)
  case Nil
  then show ?case by simp
next
  case (Cons f fs)
  show ?case
  proof (cases "drawField limits f (e, s)")
    case (Returned es)
    with drawField_session [of limits f e s] have "es = (fst es, s)" by (cases es) simp
    with Returned Cons [of "fst es"] show ?thesis by simp
  next
    case (Thrown err es)
    with drawField_session [of limits f e s] show ?thesis by simp
  qed
qed

lemma drawList_session: "snd (state_of (drawList limits s)) = s"
  by (simp add: drawList_def drawFields_session)

lemma drawnText_depends: "elementList s = elementList s' \<Longrightarrow> drawnText s f = drawnText s' f"
  by (simp add: drawnText_def cong: field_value.case_cong)

lemma drawFields_elements:
  assumes "elementList s = elementList s'"
  shows "has_returned (drawFields limits fs (e, s)) = has_returned (drawFields limits fs (e, s'))
       \<and> fst (state_of (drawFields limits fs (e, s))) = fst (state_of (drawFields limits fs (e, s')))"
proof (induction fs arbitrary: e)
  case Nil
  then show ?case by simp
next
  case (Cons f fs)
  have t: "drawnText s f = drawnText s' f" using assms by (rule drawnText_depends)
  show ?case
  proof (cases "RichEmbed_addField limits (field_name f) (drawnText s' f) (field_inline f) e")
    case (Returned e')
    with t Cons [of e'] show ?thesis by (simp add: drawField_def)
  next
    case (Thrown err e')
    with t show ?thesis by (simp add: drawField_def)
  qed
qed

lemma elementList_depends:
  "array s = array s' \<Longrightarrow> page s = page s' \<Longrightarrow> elementsPerPage s = elementsPerPage s' \<Longrightarrow>
     elementList s = elementList s'"
  by (simp add: elementList_def)

text \<open>Whether the render returns, and the artifact, are functions of the elements, the
  page, the page size and the template, and of nothing else in the session.\<close>

lemma drawList_depends:
  assumes "array s = array s'" and "page s = page s'"
    and "elementsPerPage s = elementsPerPage s'" and "embed s = embed s'"
  shows "has_returned (drawList limits s) = has_returned (drawList limits s')
       \<and> fst (state_of (drawList limits s)) = fst (state_of (drawList limits s'))"
  using drawFields_elements [OF elementList_depends [OF assms(1,2,3)]] assms(4)
  by (simp add: drawList_def)

lemma FieldsEmbed_loadList_returned:
  assumes "has_returned (drawList limits s)"
  shows "FieldsEmbed_loadList limits t c s =
     PaginationEmbed_loadList c
       (case message s of
          Some m \<Rightarrow> s\<lparr>channel := channel s @ [Edit m (shouldIndicate t s) (fst (state_of (drawList limits s)))]\<rparr>
        | None \<Rightarrow> s\<lparr>channel := channel s @ [Send (shouldIndicate t s) (fst (state_of (drawList limits s)))],
                    message := Some (next_message s),
                    next_message := Suc (next_message s)\<rparr>)"
proof -
  from assms obtain es where r: "drawList limits s = Returned es"
    by (cases "drawList limits s") simp_all
  with drawList_session [of limits s] have "es = (fst es, s)" by (cases es) simp
  then obtain e where "es = (e, s)" ..
  with r show ?thesis by (simp add: FieldsEmbed_loadList_def Let_def split: option.split)
qed

lemma FieldsEmbed_loadList_thrown:
  assumes "\<not> has_returned (drawList limits s)"
  shows "\<exists>err. FieldsEmbed_loadList limits t c s = Thrown err s"
proof -
  from assms obtain err es where r: "drawList limits s = Thrown err es"
    by (cases "drawList limits s") simp_all
  with drawList_session [of limits s] have "snd es = s" by simp
  with r show ?thesis by (simp add: FieldsEmbed_loadList_def)
qed

lemma FieldsEmbed_loadList_returns:
  "has_returned (FieldsEmbed_loadList limits t c s) = has_returned (drawList limits s)"
proof (cases "has_returned (drawList limits s)")
  case True
  then show ?thesis
    by (simp add: FieldsEmbed_loadList_returned PaginationEmbed_loadList_def)
next
  case False
  with FieldsEmbed_loadList_thrown [OF False, of t c] show ?thesis by auto
qed

lemma FieldsEmbed_loadList_channel:
  assumes "has_returned (FieldsEmbed_loadList limits t c s)"
  shows "channel (state_of (FieldsEmbed_loadList limits t c s)) =
     channel s @ [case message s of
                    Some m \<Rightarrow> Edit m (shouldIndicate t s) (fst (state_of (drawList limits s)))
                  | None \<Rightarrow> Send (shouldIndicate t s) (fst (state_of (drawList limits s)))]"
proof -
  from assms have "has_returned (drawList limits s)" by (simp add: FieldsEmbed_loadList_returns)
  then show ?thesis
    by (simp add: FieldsEmbed_loadList_returned PaginationEmbed_loadList_def split: option.split)
qed

lemma FieldsEmbed_loadList_throws_silently:
  assumes "\<not> has_returned (FieldsEmbed_loadList limits t c s)"
  shows "state_of (FieldsEmbed_loadList limits t c s) = s"
proof -
  from assms have "\<not> has_returned (drawList limits s)" by (simp add: FieldsEmbed_loadList_returns)
  from FieldsEmbed_loadList_thrown [OF this, of t c] show ?thesis by auto
qed

lemma FieldsEmbed_loadList_pages: "pages (state_of (FieldsEmbed_loadList limits t c s)) = pages s"
proof (cases "has_returned (drawList limits s)")
  case True
  then show ?thesis
    by (simp add: FieldsEmbed_loadList_returned PaginationEmbed_loadList_def split: option.split)
next
  case False
  with FieldsEmbed_loadList_thrown [OF False, of t c] show ?thesis by auto
qed

section \<open>Rendering in Embeds\<close>

lemma Embeds_loadList_channel:
  "message s = Some m \<Longrightarrow>
     channel (state_of (Embeds_loadList t c s)) = channel s @ [Edit m (shouldIndicate t s) (currentEmbed s)]"
  by (simp add: Embeds_loadList_def PaginationEmbed_loadList_def Let_def)

lemma Embeds_loadList_without_message:
  "message s = None \<Longrightarrow>
     Embeds_loadList t c s = Thrown (TypeError ''clientAssets.message is undefined'') s"
  by (simp add: Embeds_loadList_def Let_def)


section \<open>The two builds\<close>

text \<open>
  The loop of \<open>build\<close> changes nothing but the template embed, and when it returns it
  has put every field back where it was.
\<close>

lemma restoreFields_embed: "\<exists>e'. state_of (restoreFields limits fs s) = s\<lparr>embed := e'\<rparr>"
proof (induction fs arbitrary: s)
  case Nil
  have "s = s\<lparr>embed := embed s\<rparr>" by simp
  then show ?case by (metis restoreFields.simps(1) state_of.simps(1))
next
  case (Cons f fs)
  show ?case
  proof (cases "field_value f")
    case (Formatter g)
    let ?s' = "s\<lparr>embed := (embed s)\<lparr>embed_fields := embed_fields (embed s) @
      [\<lparr>field_name = field_name f, field_value = field_value f, field_inline = field_inline f\<rparr>]\<rparr>\<rparr>"
    from Cons [of ?s'] obtain e' where "state_of (restoreFields limits fs ?s') = ?s'\<lparr>embed := e'\<rparr>" ..
    with Formatter have "state_of (restoreFields limits (f # fs) s) = s\<lparr>embed := e'\<rparr>"
      by (simp add: formatField_def)
    then show ?thesis ..
  next
    case (Text t)
    show ?thesis
    proof (cases "RichEmbed_addField limits (field_name f) t (field_inline f) (embed s)")
      case (Returned e1)
      from Cons [of "s\<lparr>embed := e1\<rparr>"] obtain e' where
        "state_of (restoreFields limits fs (s\<lparr>embed := e1\<rparr>)) = s\<lparr>embed := e1\<rparr>\<lparr>embed := e'\<rparr>" ..
      with Text Returned have "state_of (restoreFields limits (f # fs) s) = s\<lparr>embed := e'\<rparr>"
        by simp
      then show ?thesis ..
    next
      case (Thrown err e1)
      with Text have "state_of (restoreFields limits (f # fs) s) = s\<lparr>embed := embed s\<rparr>" by simp
      then show ?thesis ..
    qed
  qed
qed

lemma restoreFields_returned:
  "restoreFields limits fs s = Returned s2 \<Longrightarrow>
     s2 = s\<lparr>embed := (embed s)\<lparr>embed_fields := embed_fields (embed s) @ fs\<rparr>\<rparr>"
proof (induction fs arbitrary: s)
  case Nil
  then show ?case by simp
next
  case (Cons f fs)
  show ?case
  proof (cases "field_value f")
    case (Formatter g)
    then have f: "\<lparr>field_name = field_name f, field_value = Formatter g, field_inline = field_inline f\<rparr> = f"
      by (cases f) simp
    from Formatter Cons.prems have
      "restoreFields limits fs (s\<lparr>embed := (embed s)\<lparr>embed_fields := embed_fields (embed s) @ [f]\<rparr>\<rparr>) = Returned s2"
      by (simp add: formatField_def f)
    from Cons.IH [OF this] show ?thesis by simp
  next
    case (Text t)
    then have f: "\<lparr>field_name = field_name f, field_value = Text t, field_inline = field_inline f\<rparr> = f"
      by (cases f) simp
    from Text Cons.prems have
      "restoreFields limits fs (s\<lparr>embed := (embed s)\<lparr>embed_fields := embed_fields (embed s) @ [f]\<rparr>\<rparr>) = Returned s2"
      by (simp add: RichEmbed_addField_def f split: option.splits outcome.splits)
    from Cons.IH [OF this] show ?thesis by simp
  qed
qed

lemma restoreFields_template:
  "restoreFields limits (embed_fields (embed s)) (s\<lparr>embed := (embed s)\<lparr>embed_fields := []\<rparr>\<rparr>) = Returned s2
     \<Longrightarrow> s2 = s"
  by (drule restoreFields_returned) simp

text \<open>
  The ways \<open>build\<close> can end, with the session \<open>s1\<close> that has the page count: thrown by
  \<open>_verify\<close>, thrown by the library on a field put back, thrown for want of a
  formatted field, or handed over to \<open>_loadList\<close>.
\<close>

lemma FieldsEmbed_build_cases:
  fixes s :: "'e FieldsEmbed"
  defines "s1 \<equiv> s\<lparr>pages := Math_ceil (js_div (js_length (array s)) (elementsPerPage s))\<rparr>"
  shows "(\<exists>err. FieldsEmbed_build limits t v s = Thrown err s1)
       \<or> (\<exists>err e'. FieldsEmbed_build limits t v s = Thrown err (s1\<lparr>embed := e'\<rparr>))
       \<or> (v s1 = None
           \<and> filter (\<lambda>f. is_function (field_value f)) (embed_fields (embed s)) \<noteq> []
           \<and> FieldsEmbed_build limits t v s =
               FieldsEmbed_loadList limits t True
                 (if start_listeners s \<noteq> 0 then s1\<lparr>emitted := emitted s @ [''start'']\<rparr> else s1))"
proof (cases "v s1")
  case (Some err)
  then show ?thesis by (simp add: FieldsEmbed_build_def Let_def s1_def)
next
  case None
  let ?r = "restoreFields limits (embed_fields (embed s1)) (s1\<lparr>embed := (embed s1)\<lparr>embed_fields := []\<rparr>\<rparr>)"
  show ?thesis
  proof (cases ?r)
    case (Thrown err s2)
    from restoreFields_embed [of limits "embed_fields (embed s1)" "s1\<lparr>embed := (embed s1)\<lparr>embed_fields := []\<rparr>\<rparr>"]
    obtain e' where "state_of ?r = s1\<lparr>embed := (embed s1)\<lparr>embed_fields := []\<rparr>\<rparr>\<lparr>embed := e'\<rparr>" ..
    with Thrown have "s2 = s1\<lparr>embed := e'\<rparr>" by simp
    with Thrown None have "FieldsEmbed_build limits t v s = Thrown err (s1\<lparr>embed := e'\<rparr>)"
      by (simp add: FieldsEmbed_build_def Let_def s1_def)
    then show ?thesis by blast
  next
    case (Returned s2)
    then have "s2 = s1" by (rule restoreFields_template)
    with Returned None show ?thesis
      by (simp add: FieldsEmbed_build_def Let_def s1_def)
  qed
qed


lemma FieldsEmbed_build_pages:
  "pages (state_of (FieldsEmbed_build limits t v s))
     = Math_ceil (js_div (js_length (array s)) (elementsPerPage s))"
  using FieldsEmbed_build_cases [of limits t v s]
  by (auto simp: FieldsEmbed_loadList_pages)

lemma Embeds_build_pages: "pages (state_of (Embeds_build t v s)) = js_length (array s)"
  by (simp add: Embeds_build_def Let_def Embeds_loadList_def PaginationEmbed_loadList_def
      split: option.split)

text \<open>For a whole page size the page count is the rounded-up integer quotient.\<close>

lemma ceiling_nat_div:
  fixes n k :: nat
  assumes "0 < k"
  shows "\<lceil>(of_nat n :: rat) / of_nat k\<rceil> = int ((n + k - 1) div k)"
proof (rule ceiling_unique)
  let ?z = "(n + k - 1) div k"
  have m: "?z * k + (n + k - 1) mod k = n + k - 1" by simp
  have l: "(n + k - 1) mod k < k" using assms by simp
  have "n \<le> ?z * k" using m l assms by linarith
  then have "(of_nat n :: rat) \<le> of_nat (?z * k)" using of_nat_le_iff by blast
  then show "(of_nat n :: rat) / of_nat k \<le> of_int (int ?z)"
    using assms by (simp add: divide_le_eq)
  have "?z * k < n + k" using m assms by linarith
  then have "(of_nat (?z * k) :: rat) < of_nat (n + k)" using of_nat_less_iff by blast
  then show "of_int (int ?z) - 1 < (of_nat n :: rat) / of_nat k"
    using assms by (simp add: less_divide_eq algebra_simps)
qed

lemma whole_page_count:
  "0 < k \<Longrightarrow>
     Math_ceil (js_div (js_length xs) (Num (of_nat k))) = Num (of_nat ((length xs + k - 1) div k))"
  by (simp add: js_length_def ceiling_nat_div)

text \<open>
  Claim C1. For every non-empty element array and every positive whole
  \<open>elementsPerPage\<close>, the page count that \<open>build\<close> leaves in \<open>pages\<close> is the ceiling of
  the number of elements divided by \<open>elementsPerPage\<close> in FieldsEmbed, which is the
  integer quotient rounded up, and the number of elements in Embeds; this is so
  however \<open>_verify\<close> and the rest of \<open>build\<close> end. An array has fewer than \<open>2^32\<close>
  elements, and there the quotient the code computes in doubles has this ceiling.
\<close>

theorem pages_after_build:
  assumes "array s \<noteq> []" and "length (array s) < 2 ^ 32"
    and "elementsPerPage s = Num (of_nat k)" and "0 < k"
  shows "pages (state_of (FieldsEmbed_build limits toString verify s))
           = Num (of_int \<lceil>(of_nat (length (array s)) :: rat) / of_nat k\<rceil>)
       \<and> pages (state_of (FieldsEmbed_build limits toString verify s))
           = Num (of_nat ((length (array s) + k - 1) div k))
       \<and> pages (state_of (Embeds_build toString' verify' s')) = Num (of_nat (length (array s')))"
  using assms
  by (simp add: FieldsEmbed_build_pages Embeds_build_pages js_length_def ceiling_nat_div)

text \<open>The scenario of the specification: 25 elements, 10 to a page, 3 pages.\<close>

theorem pages_after_build_witness:
  "pages (state_of (FieldsEmbed_build RichEmbed_limits printNumber verifyPasses
      (exampleFieldsEmbed (replicate 25 ''x'') (Num 10) (Num 1) None [id]))) = Num 3
   \<and> pages (state_of (Embeds_build printNumber verifyPasses
      (exampleEmbeds [''a'', ''b'', ''c''] (Num 1) (Some 4)))) = Num 3"
  using pages_after_build [of "exampleFieldsEmbed (replicate 25 ''x'') (Num 10) (Num 1) None [id]" 10
      RichEmbed_limits printNumber verifyPasses printNumber verifyPasses
      "exampleEmbeds [''a'', ''b'', ''c''] (Num 1) (Some 4)"]
  by (simp add: exampleFieldsEmbed_def exampleEmbeds_def ceiling_eq_iff)

section \<open>The content of a page\<close>



section \<open>The setters\<close>

lemma firstInvalid_embeds: "firstInvalid i (map JsEmbed es) = None"
  by (induction es arbitrary: i) simp_all

lemma embedsOf_embeds: "embedsOf (map JsEmbed es) = es"
  by (induction es) simp_all

lemma firstInvalid_None: "firstInvalid i xs = None \<Longrightarrow> xs = map JsEmbed (embedsOf xs)"
proof (induction xs arbitrary: i)
  case Nil
  then show ?case by simp
next
  case (Cons x xs)
  then show ?case by (cases x) (auto split: if_splits)
qed

lemma setArray_accepts:
  "es \<noteq> [] \<Longrightarrow> Embeds_setArray (JsArray (map JsEmbed es)) s = Returned (s\<lparr>array := es\<rparr>)"
  by (simp add: Embeds_setArray_def firstInvalid_embeds embedsOf_embeds)

lemma setArray_rejects:
  assumes "\<not> (\<exists>es. es \<noteq> [] \<and> v = JsArray (map JsEmbed es))"
  shows "\<exists>msg. Embeds_setArray v s = Thrown (TypeError msg) s"
proof (cases v)
  case (JsArray xs)
  show ?thesis
  proof (cases "xs = []")
    case True
    with JsArray show ?thesis by (simp add: Embeds_setArray_def)
  next
    case False
    have "firstInvalid 0 xs \<noteq> None"
    proof
      assume "firstInvalid 0 xs = None"
      then have "xs = map JsEmbed (embedsOf xs)" by (rule firstInvalid_None)
      moreover from this False have "embedsOf xs \<noteq> []" by auto
      ultimately show False using assms JsArray by blast
    qed
    then obtain i where "firstInvalid 0 xs = Some i" by auto
    with JsArray False show ?thesis by (simp add: Embeds_setArray_def)
  qed
qed (simp_all add: Embeds_setArray_def)

text \<open>
  Claim C4. \<open>setArray\<close> of Embeds stores a non-empty array of \<open>MessageEmbed\<close> instances
  as it is and returns the session; for every other argument (not an array, an empty
  array, an array with an element that is not a \<open>MessageEmbed\<close>) it throws a
  \<open>TypeError\<close> and leaves the session as it was.
\<close>

theorem setArray_validates:
  "(es \<noteq> [] \<longrightarrow> Embeds_setArray (JsArray (map JsEmbed es)) s = Returned (s\<lparr>array := es\<rparr>))
   \<and> ((\<forall>es'. es' = [] \<or> v \<noteq> JsArray (map JsEmbed es')) \<longrightarrow>
        (\<exists>msg. Embeds_setArray v s = Thrown (TypeError msg) s))"
  using setArray_accepts [of es s] setArray_rejects [of v s] by blast

theorem setArray_validates_witness:
  "Embeds_setArray (JsArray [JsEmbed ''a'', JsEmbed ''b'']) (exampleEmbeds [] (Num 1) None)
     = Returned ((exampleEmbeds [] (Num 1) None)\<lparr>array := [''a'', ''b'']\<rparr>)
   \<and> (\<exists>msg. Embeds_setArray (JsArray [JsEmbed ''a'', JsString ''b'']) (exampleEmbeds [] (Num 1) None)
          = Thrown (TypeError msg) (exampleEmbeds [] (Num 1) None))"
proof -
  have a: "[''a'', ''b''] \<noteq> []" by simp
  have b: "\<forall>es'. es' = [] \<or> JsArray [JsEmbed ''a'', JsString ''b''] \<noteq> JsArray (map JsEmbed es')"
    by (auto simp: map_eq_Cons_conv)
  show ?thesis
    using setArray_validates [of "[''a'', ''b'']" "exampleEmbeds [] (Num 1) None"
        "JsArray [JsEmbed ''a'', JsString ''b'']"] a b
    by simp
qed

text \<open>The three kinds of rejected argument, with the text of the error.\<close>

lemma setArray_rejected_examples:
  "Embeds_setArray (JsString ''ab'') (exampleEmbeds [''z''] (Num 1) None)
     = Thrown (TypeError ''Cannot invoke Embeds class without a valid array to paginate.'')
         (exampleEmbeds [''z''] (Num 1) None)"
  "Embeds_setArray (JsArray []) (exampleEmbeds [''z''] (Num 1) None)
     = Thrown (TypeError ''Cannot invoke Embeds class without a valid array to paginate.'')
         (exampleEmbeds [''z''] (Num 1) None)"
  "Embeds_setArray (JsArray [JsEmbed ''a'', JsString ''b'']) (exampleEmbeds [''z''] (Num 1) None)
     = Thrown (TypeError ''(MessageEmbeds[1]) Cannot invoke Embeds class with an invalid MessageEmbed instance.'')
         (exampleEmbeds [''z''] (Num 1) None)"
  by (simp_all add: Embeds_setArray_def)

text \<open>
  Claim C5, as the code has it. \<open>setElementsPerPage\<close> throws a \<open>TypeError\<close>, and leaves
  the session as it was, for every argument whose type is not \<open>number\<close>; for every
  number, zero, the negative numbers and the fractions included, it stores the number
  in \<open>elementsPerPage\<close> and returns the session.
\<close>

theorem setElementsPerPage_accepts_every_number:
  "setElementsPerPage (JsNumber n) s = Returned (s\<lparr>elementsPerPage := n\<rparr>)
   \<and> (\<not> typeof_number v \<longrightarrow>
        setElementsPerPage v s = Thrown (TypeError ''setElementsPerPage() only accepts number type.'') s)"
  by (cases v) (simp_all add: setElementsPerPage_def)

theorem setElementsPerPage_accepts_every_number_witness:
  "setElementsPerPage (JsNumber (Num 4) :: string js_value) (exampleFieldsEmbed [1, 2, 3 :: nat] (Num 10) (Num 1) None [])
     = Returned (exampleFieldsEmbed [1, 2, 3 :: nat] (Num 4) (Num 1) None [])
   \<and> setElementsPerPage (JsString ''4'' :: string js_value) (exampleFieldsEmbed [1, 2, 3 :: nat] (Num 10) (Num 1) None [])
     = Thrown (TypeError ''setElementsPerPage() only accepts number type.'')
         (exampleFieldsEmbed [1, 2, 3 :: nat] (Num 10) (Num 1) None [])"
  using setElementsPerPage_accepts_every_number [of "Num 4"
      "exampleFieldsEmbed [1, 2, 3 :: nat] (Num 10) (Num 1) None []" "JsString ''4'' :: string js_value"]
  by (simp add: exampleFieldsEmbed_def)

text \<open>
  The claim as the specification words it fails: zero, a negative number and a
  fraction are accepted and stored.
\<close>

theorem setElementsPerPage_counterexample:
  "has_returned (setElementsPerPage (JsNumber (Num 0) :: string js_value)
      (exampleFieldsEmbed [1, 2, 3 :: nat] (Num 10) (Num 1) None []))
   \<and> has_returned (setElementsPerPage (JsNumber (Num (- 1)) :: string js_value)
      (exampleFieldsEmbed [1, 2, 3 :: nat] (Num 10) (Num 1) None []))
   \<and> elementsPerPage (state_of (setElementsPerPage (JsNumber (Num (5 / 2)) :: string js_value)
      (exampleFieldsEmbed [1, 2, 3 :: nat] (Num 10) (Num 1) None []))) = Num (5 / 2)"
  by (simp add: setElementsPerPage_def)

section \<open>Building and rendering\<close>

text \<open>
  Claim C6. When no field of the template embed has a function for its value, \<open>build\<close>
  of FieldsEmbed throws, and what it leaves behind has the channel and the message
  handle as they were: nothing has been sent or edited.
\<close>

theorem build_without_formatted_field:
  assumes "\<forall>f \<in> set (embed_fields (embed s)). \<not> is_function (field_value f)"
  shows "\<exists>e s'. FieldsEmbed_build limits toString verify s = Thrown e s'
           \<and> channel s' = channel s \<and> message s' = message s"
proof -
  have "filter (\<lambda>f. is_function (field_value f)) (embed_fields (embed s)) = []"
    using assms by (simp add: filter_empty_conv)
  with FieldsEmbed_build_cases [of limits toString verify s] show ?thesis
    by auto
qed

theorem build_without_formatted_field_witness:
  "\<exists>e s'. FieldsEmbed_build RichEmbed_limits printNumber verifyPasses
              (exampleFieldsEmbed [1, 2, 3 :: nat] (Num 10) (Num 1) None []) = Thrown e s'
     \<and> channel s' = [] \<and> message s' = None"
  using build_without_formatted_field [of "exampleFieldsEmbed [1, 2, 3 :: nat] (Num 10) (Num 1) None []"
      RichEmbed_limits printNumber verifyPasses]
  by (simp add: exampleFieldsEmbed_def exampleTemplate_def)

lemma limits_About: "count < 25 \<Longrightarrow> RichEmbed_limits count ''About'' ''A list'' = None"
  by (simp add: RichEmbed_limits_def blank_def)

text \<open>The error is the one \<open>build\<close> itself raises when \<open>_verify\<close> and the library pass.\<close>

lemma build_without_formatted_field_example:
  "FieldsEmbed_build RichEmbed_limits printNumber verifyPasses
      (exampleFieldsEmbed [1, 2, 3 :: nat] (Num 10) (Num 1) None [])
     = Thrown (Error ''Cannot invoke FieldsEmbed class without at least one formatted field to paginate.'')
         ((exampleFieldsEmbed [1, 2, 3 :: nat] (Num 10) (Num 1) None [])\<lparr>pages := Num 1\<rparr>)"
  by (simp add: FieldsEmbed_build_def Let_def verifyPasses_def exampleFieldsEmbed_def
      exampleTemplate_def js_length_def ceiling_eq_iff RichEmbed_addField_def limits_About)

lemma shouldIndicate_emitted [simp]:
  "shouldIndicate t (s\<lparr>emitted := x\<rparr>) = shouldIndicate t s"
  by (simp add: shouldIndicate_def)

lemma drawList_emitted [simp]:
  "fst (state_of (drawList limits (s\<lparr>emitted := x\<rparr>))) = fst (state_of (drawList limits s))"
  using drawList_depends [of "s\<lparr>emitted := x\<rparr>" s limits] by simp


lemma limits_Name_xy: "count < 25 \<Longrightarrow> RichEmbed_limits count ''Name'' (''x'' @ [CHR 0x0A] @ ''y'') = None"
  by (simp add: RichEmbed_limits_def blank_def)

lemma limits_blank_value:
  "count < 25 \<Longrightarrow>
     RichEmbed_limits count ''Name'' [] = Some (RangeError ''RichEmbed field values may not be empty.'')"
  by (simp add: RichEmbed_limits_def blank_def)


text \<open>Three names, two to a page: the first page as \<open>_drawList\<close> draws it.\<close>

lemma drawList_example:
  "drawList RichEmbed_limits ((exampleFieldsEmbed [''x'', ''y'', ''z''] (Num 2) (Num 1) handle [id])\<lparr>pages := n\<rparr>)
     = Returned
         (\<lparr>title = Some ''Members'', description = None, color = None,
           embed_fields =
             [\<lparr>field_name = ''About'', field_value = Text ''A list'', field_inline = False\<rparr>,
              \<lparr>field_name = ''Name'', field_value = Text (''x'' @ [CHR 0x0A] @ ''y''), field_inline = True\<rparr>]\<rparr>,
          (exampleFieldsEmbed [''x'', ''y'', ''z''] (Num 2) (Num 1) handle [id])\<lparr>pages := n\<rparr>)"
proof -
  let ?s = "(exampleFieldsEmbed [''x'', ''y'', ''z''] (Num 2) (Num 1) handle [id])\<lparr>pages := n\<rparr>"
  have e: "elementList ?s = [''x'', ''y'']"
    by (simp add: elementList_def Array_slice_def truncate_toward_zero_def js_sub_def
        exampleFieldsEmbed_def)
  have t: "drawnText ?s \<lparr>field_name = ''Name'', field_value = Formatter id, field_inline = True\<rparr>
      = ''x'' @ [CHR 0x0A] @ ''y''"
    by (simp add: drawnText_def e)
  have a: "drawnText ?s \<lparr>field_name = ''About'', field_value = Text ''A list'', field_inline = False\<rparr>
      = ''A list''"
    by (simp add: drawnText_def)
  have f: "embed_fields (embed ?s) =
      [\<lparr>field_name = ''About'', field_value = Text ''A list'', field_inline = False\<rparr>,
       \<lparr>field_name = ''Name'', field_value = Formatter id, field_inline = True\<rparr>]"
    "(embed ?s)\<lparr>embed_fields := []\<rparr> = \<lparr>title = Some ''Members'', description = None, color = None, embed_fields = []\<rparr>"
    by (simp_all add: exampleFieldsEmbed_def exampleTemplate_def)
  show ?thesis
    unfolding drawList_def f
    using limits_Name_xy [of "Suc 0"]
    by (simp add: drawField_def RichEmbed_addField_def a t limits_About)
qed




section \<open>The render and the store\<close>

text \<open>
  As long as the copy's array is not the template's, the loop ends, and it leaves in
  the copy's array what the render on values comes to from an embed with the fields
  the copy had; nothing else in the store has changed.
\<close>

lemma drawLoop_result:
  assumes "template \<noteq> copy" and "embed_fields e = arrays h copy"
  shows "drawLoop limits s template copy i h =
     Some (copy_into copy h (drawFields limits (drop i (arrays h template)) (e, s)))"
  using assms
proof (induction "length (arrays h template) - i" arbitrary: i h e)
  case 0
  then have "drop i (arrays h template) = []" by simp
  moreover have "h\<lparr>arrays := (arrays h)(copy := arrays h copy)\<rparr> = h" by simp
  ultimately show ?case using 0 by (subst drawLoop.simps) simp
next
  case (Suc n)
  let ?f = "arrays h template ! i"
  have i: "i < length (arrays h template)" using Suc.hyps(2) by simp
  then have d: "drop i (arrays h template) = ?f # drop (Suc i) (arrays h template)"
    by (simp add: Cons_nth_drop_Suc)
  show ?case
  proof (cases "limits (length (arrays h copy)) (field_name ?f) (drawnText s ?f)")
    case (Some err)
    have "h\<lparr>arrays := (arrays h)(copy := arrays h copy)\<rparr> = h" by simp
    with Some i Suc.prems(2) show ?thesis
      by (subst drawLoop.simps)
         (simp add: d store_addField_def drawField_def RichEmbed_addField_def Let_def)
  next
    case None
    let ?new = "\<lparr>field_name = field_name ?f, field_value = Text (drawnText s ?f),
                  field_inline = field_inline ?f\<rparr>"
    let ?h = "h\<lparr>arrays := (arrays h)(copy := arrays h copy @ [?new])\<rparr>"
    let ?e = "e\<lparr>embed_fields := embed_fields e @ [?new]\<rparr>"
    have t: "arrays ?h template = arrays h template" using Suc.prems(1) by simp
    have c: "embed_fields ?e = arrays ?h copy" using Suc.prems(2) by simp
    have "n = length (arrays ?h template) - Suc i" using Suc.hyps(2) t by simp
    from Suc.hyps(1) [OF this Suc.prems(1) c]
    have "drawLoop limits s template copy (Suc i) ?h =
        Some (copy_into copy ?h (drawFields limits (drop (Suc i) (arrays h template)) (?e, s)))"
      unfolding t .
    moreover have "copy_into copy ?h r = copy_into copy h r" for r :: "('a RichEmbed \<times> 'a FieldsEmbed) outcome"
      by (cases r) simp_all
    ultimately have "drawLoop limits s template copy (Suc i) ?h =
        Some (copy_into copy h (drawFields limits (drop (Suc i) (arrays h template)) (?e, s)))"
      by simp
    with None i Suc.prems(2) show ?thesis
      by (subst drawLoop.simps)
         (simp add: d store_addField_def drawField_def RichEmbed_addField_def Let_def)
  qed
qed

lemma drawList_store_result:
  assumes "template < next_array h" and "arrays h template = embed_fields (embed s)"
  shows "drawList_store limits s template h =
     Some (with_copy (next_array h)
            (copy_into (next_array h) (h\<lparr>next_array := Suc (next_array h)\<rparr>) (drawList limits s)))"
proof -
  let ?copy = "next_array h"
  let ?h1 = "h\<lparr>arrays := (arrays h)(?copy := []), next_array := Suc ?copy\<rparr>"
  have n: "template \<noteq> ?copy" using assms(1) by simp
  have e: "embed_fields ((embed s)\<lparr>embed_fields := []\<rparr>) = arrays ?h1 ?copy" by simp
  have t: "arrays ?h1 template = embed_fields (embed s)" using n assms(2) by simp
  have "drawLoop limits s template ?copy 0 ?h1 =
      Some (copy_into ?copy ?h1 (drawFields limits (drop 0 (arrays ?h1 template))
              ((embed s)\<lparr>embed_fields := []\<rparr>, s)))"
    using n e by (rule drawLoop_result)
  then have "drawLoop limits s template ?copy 0 ?h1 = Some (copy_into ?copy ?h1 (drawList limits s))"
    unfolding t by (simp add: drawList_def)
  moreover have "copy_into ?copy ?h1 r = copy_into ?copy (h\<lparr>next_array := Suc ?copy\<rparr>) r"
    for r :: "('a RichEmbed \<times> 'a FieldsEmbed) outcome"
    by (cases r) simp_all
  ultimately show ?thesis
    by (simp add: drawList_store_def Let_def)
qed

lemma with_copy_into [simp]:
  "has_returned (with_copy c (copy_into c h r)) = has_returned r"
  "fst (state_of (with_copy c (copy_into c h r))) = c"
  "arrays (snd (state_of (with_copy c (copy_into c h r)))) = (arrays h)(c := embed_fields (fst (state_of r)))"
  "next_array (snd (state_of (with_copy c (copy_into c h r)))) = next_array h"
  by (cases r; simp)+

text \<open>
  Claim C8. \<open>_drawList\<close> ends, by returning or by throwing the error of the library,
  and either way leaves the session as it finds it. Of the session it only reads: the
  element array, the page, the page count and the page size come back as they went
  in. In the store it writes to one array only, the one it has allocated for the
  copy: every array that existed, the field array of the template embed included, is
  identical before and after. When it returns, the artifact has the fields of the
  render on values. A second render, from the state the first has left, ends as the
  first has, with the same fields. (A formatter is a function of the element: what a
  user's function might write on its own account is not part of the method.)
\<close>

theorem drawList_leaves_session:
  assumes "template < next_array h" and "arrays h template = embed_fields (embed s)"
  shows "\<exists>r. drawList_store limits s template h = Some r
         \<and> has_returned r = has_returned (drawList limits s)
         \<and> fst (state_of r) = next_array h
         \<and> (\<forall>a. a < next_array h \<longrightarrow> arrays (snd (state_of r)) a = arrays h a)
         \<and> arrays (snd (state_of r)) template = embed_fields (embed s)
         \<and> arrays (snd (state_of r)) (fst (state_of r)) = embed_fields (fst (state_of (drawList limits s)))
         \<and> snd (state_of (drawList limits s)) = s
         \<and> array (snd (state_of (drawList limits s))) = array s
         \<and> page (snd (state_of (drawList limits s))) = page s
         \<and> pages (snd (state_of (drawList limits s))) = pages s
         \<and> elementsPerPage (snd (state_of (drawList limits s))) = elementsPerPage s
         \<and> (\<exists>r'. drawList_store limits s template (snd (state_of r)) = Some r'
               \<and> has_returned r' = has_returned r
               \<and> arrays (snd (state_of r')) (fst (state_of r')) = arrays (snd (state_of r)) (fst (state_of r))
               \<and> arrays (snd (state_of r')) (fst (state_of r)) = arrays (snd (state_of r)) (fst (state_of r))
               \<and> arrays (snd (state_of r')) template = embed_fields (embed s))"
proof -
  define c where "c = next_array h"
  define r where "r = with_copy c (copy_into c (h\<lparr>next_array := Suc c\<rparr>) (drawList limits s))"
  define h' where "h' = snd (state_of r)"
  define r' where "r' = with_copy (Suc c) (copy_into (Suc c) (h'\<lparr>next_array := Suc (Suc c)\<rparr>) (drawList limits s))"
  have 1: "drawList_store limits s template h = Some r"
    unfolding r_def c_def using assms by (rule drawList_store_result)
  have n: "next_array h' = Suc c" by (simp add: h'_def r_def)
  have t: "arrays h' template = embed_fields (embed s)"
    using assms by (simp add: h'_def r_def c_def)
  have "template < next_array h'" using assms(1) n by (simp add: c_def)
  from drawList_store_result [OF this t, of limits]
  have 2: "drawList_store limits s template h' = Some r'" unfolding n r'_def .
  have 3: "\<forall>a. a < next_array h \<longrightarrow> arrays h' a = arrays h a"
    by (simp add: h'_def r_def c_def)
  have 4: "arrays h' (fst (state_of r)) = embed_fields (fst (state_of (drawList limits s)))"
    by (simp add: h'_def r_def)
  have 5: "arrays (snd (state_of r')) (fst (state_of r')) = arrays h' (fst (state_of r))"
    by (simp add: r'_def) (simp add: h'_def r_def)
  have 6: "arrays (snd (state_of r')) (fst (state_of r)) = arrays h' (fst (state_of r))"
    by (simp add: r'_def) (simp add: h'_def r_def)
  have 7: "arrays (snd (state_of r')) template = embed_fields (embed s)"
    using assms t by (simp add: r'_def c_def)
  have 8: "has_returned r = has_returned (drawList limits s)" by (simp add: r_def)
  have 9: "has_returned r' = has_returned r" by (simp add: r'_def r_def)
  have 10: "snd (state_of (drawList limits s)) = s" by (rule drawList_session)
  have 11: "fst (state_of r) = next_array h" by (simp add: r_def c_def)
  have "\<exists>r''. drawList_store limits s template h' = Some r''
       \<and> has_returned r'' = has_returned r
       \<and> arrays (snd (state_of r'')) (fst (state_of r'')) = arrays h' (fst (state_of r))
       \<and> arrays (snd (state_of r'')) (fst (state_of r)) = arrays h' (fst (state_of r))
       \<and> arrays (snd (state_of r'')) template = embed_fields (embed s)"
    using 2 9 5 6 7 by blast
  then show ?thesis
    using 1 8 11 3 t 4 unfolding 10 h'_def by blast
qed

text \<open>
  The same names with a formatter whose lines are empty: the text of the page is
  blank, the library rejects the field, and the render throws with the first field
  drawn.
\<close>

lemma drawList_blank_example:
  "drawList RichEmbed_limits ((exampleFieldsEmbed [''x'', ''y'', ''z''] (Num 2) (Num 1) handle [noText])\<lparr>pages := n\<rparr>)
     = Thrown (RangeError ''RichEmbed field values may not be empty.'')
         (\<lparr>title = Some ''Members'', description = None, color = None,
           embed_fields =
             [\<lparr>field_name = ''About'', field_value = Text ''A list'', field_inline = False\<rparr>]\<rparr>,
          (exampleFieldsEmbed [''x'', ''y'', ''z''] (Num 2) (Num 1) handle [noText])\<lparr>pages := n\<rparr>)"
proof -
  let ?s = "(exampleFieldsEmbed [''x'', ''y'', ''z''] (Num 2) (Num 1) handle [noText])\<lparr>pages := n\<rparr>"
  have e: "elementList ?s = [''x'', ''y'']"
    by (simp add: elementList_def Array_slice_def truncate_toward_zero_def js_sub_def
        exampleFieldsEmbed_def)
  have t: "drawnText ?s \<lparr>field_name = ''Name'', field_value = Formatter noText, field_inline = True\<rparr>
      = [CHR 0x0A]"
    by (simp add: drawnText_def e noText_def)
  have a: "drawnText ?s \<lparr>field_name = ''About'', field_value = Text ''A list'', field_inline = False\<rparr>
      = ''A list''"
    by (simp add: drawnText_def)
  have f: "embed_fields (embed ?s) =
      [\<lparr>field_name = ''About'', field_value = Text ''A list'', field_inline = False\<rparr>,
       \<lparr>field_name = ''Name'', field_value = Formatter noText, field_inline = True\<rparr>]"
    "(embed ?s)\<lparr>embed_fields := []\<rparr> = \<lparr>title = Some ''Members'', description = None, color = None, embed_fields = []\<rparr>"
    by (simp_all add: exampleFieldsEmbed_def exampleTemplate_def)
  have l: "RichEmbed_limits (Suc 0) ''Name'' [CHR 0x0A]
      = Some (RangeError ''RichEmbed field values may not be empty.'')"
    by (simp add: RichEmbed_limits_def blank_def)
  show ?thesis
    unfolding drawList_def f
    by (simp add: drawField_def RichEmbed_addField_def a t l limits_About)
qed

text \<open>
  The template's fields at address 2 of the store, the next free address 5. With the
  names as they are the first page is drawn at 5, and the array at 2 is as it was.
  With the formatter of empty lines the render throws: the array at 5 has the one
  field that was drawn, and the array at 2 is as it was.
\<close>

theorem drawList_leaves_session_witness:
  "(\<exists>r. drawList_store RichEmbed_limits
            ((exampleFieldsEmbed [''x'', ''y'', ''z''] (Num 2) (Num 1) None [id])\<lparr>pages := Num 2\<rparr>) 2
            (exampleStore (embed_fields (exampleTemplate [id]))) = Some r
      \<and> has_returned r \<and> fst (state_of r) = 5
      \<and> arrays (snd (state_of r)) 2 =
         [\<lparr>field_name = ''About'', field_value = Text ''A list'', field_inline = False\<rparr>,
          \<lparr>field_name = ''Name'', field_value = Formatter id, field_inline = True\<rparr>]
      \<and> arrays (snd (state_of r)) 5 =
         [\<lparr>field_name = ''About'', field_value = Text ''A list'', field_inline = False\<rparr>,
          \<lparr>field_name = ''Name'', field_value = Text (''x'' @ [CHR 0x0A] @ ''y''), field_inline = True\<rparr>])
   \<and> (\<exists>r. drawList_store RichEmbed_limits
            ((exampleFieldsEmbed [''x'', ''y'', ''z''] (Num 2) (Num 1) None [noText])\<lparr>pages := Num 2\<rparr>) 2
            (exampleStore (embed_fields (exampleTemplate [noText]))) = Some r
      \<and> \<not> has_returned r \<and> fst (state_of r) = 5
      \<and> arrays (snd (state_of r)) 2 =
         [\<lparr>field_name = ''About'', field_value = Text ''A list'', field_inline = False\<rparr>,
          \<lparr>field_name = ''Name'', field_value = Formatter noText, field_inline = True\<rparr>]
      \<and> arrays (snd (state_of r)) 5 =
         [\<lparr>field_name = ''About'', field_value = Text ''A list'', field_inline = False\<rparr>])"
proof -
  let ?s = "(exampleFieldsEmbed [''x'', ''y'', ''z''] (Num 2) (Num 1) None [id])\<lparr>pages := Num 2\<rparr>"
  let ?h = "exampleStore (embed_fields (exampleTemplate [id :: string \<Rightarrow> string]))"
  let ?u = "(exampleFieldsEmbed [''x'', ''y'', ''z''] (Num 2) (Num 1) None [noText])\<lparr>pages := Num 2\<rparr>"
  let ?k = "exampleStore (embed_fields (exampleTemplate [noText]))"
  have a: "2 < next_array ?h" "2 < next_array ?k" by (simp_all add: exampleStore_def)
  have b: "arrays ?h 2 = embed_fields (embed ?s)" "arrays ?k 2 = embed_fields (embed ?u)"
    by (simp_all add: exampleStore_def exampleFieldsEmbed_def)
  have f: "embed_fields (embed ?s) =
         [\<lparr>field_name = ''About'', field_value = Text ''A list'', field_inline = False\<rparr>,
          \<lparr>field_name = ''Name'', field_value = Formatter id, field_inline = True\<rparr>]"
    "embed_fields (embed ?u) =
         [\<lparr>field_name = ''About'', field_value = Text ''A list'', field_inline = False\<rparr>,
          \<lparr>field_name = ''Name'', field_value = Formatter noText, field_inline = True\<rparr>]"
    by (simp_all add: exampleFieldsEmbed_def exampleTemplate_def)
  have n: "next_array ?h = 5" "next_array ?k = 5" by (simp_all add: exampleStore_def)
  have d: "has_returned (drawList RichEmbed_limits ?s)"
    "embed_fields (fst (state_of (drawList RichEmbed_limits ?s))) =
         [\<lparr>field_name = ''About'', field_value = Text ''A list'', field_inline = False\<rparr>,
          \<lparr>field_name = ''Name'', field_value = Text (''x'' @ [CHR 0x0A] @ ''y''), field_inline = True\<rparr>]"
    "\<not> has_returned (drawList RichEmbed_limits ?u)"
    "embed_fields (fst (state_of (drawList RichEmbed_limits ?u))) =
         [\<lparr>field_name = ''About'', field_value = Text ''A list'', field_inline = False\<rparr>]"
    by (simp_all only: drawList_example drawList_blank_example) simp_all
  from drawList_leaves_session [OF a(1) b(1), of RichEmbed_limits] obtain r where
    "drawList_store RichEmbed_limits ?s 2 ?h = Some r"
    "has_returned r = has_returned (drawList RichEmbed_limits ?s)"
    "fst (state_of r) = next_array ?h"
    "arrays (snd (state_of r)) 2 = embed_fields (embed ?s)"
    "arrays (snd (state_of r)) (fst (state_of r)) = embed_fields (fst (state_of (drawList RichEmbed_limits ?s)))"
    by blast
  then have 1: "\<exists>r. drawList_store RichEmbed_limits ?s 2 ?h = Some r
      \<and> has_returned r \<and> fst (state_of r) = 5
      \<and> arrays (snd (state_of r)) 2 = embed_fields (embed ?s)
      \<and> arrays (snd (state_of r)) 5 = embed_fields (fst (state_of (drawList RichEmbed_limits ?s)))"
    using d(1) n(1) by auto
  from drawList_leaves_session [OF a(2) b(2), of RichEmbed_limits] obtain r where
    "drawList_store RichEmbed_limits ?u 2 ?k = Some r"
    "has_returned r = has_returned (drawList RichEmbed_limits ?u)"
    "fst (state_of r) = next_array ?k"
    "arrays (snd (state_of r)) 2 = embed_fields (embed ?u)"
    "arrays (snd (state_of r)) (fst (state_of r)) = embed_fields (fst (state_of (drawList RichEmbed_limits ?u)))"
    by blast
  then have 2: "\<exists>r. drawList_store RichEmbed_limits ?u 2 ?k = Some r
      \<and> \<not> has_returned r \<and> fst (state_of r) = 5
      \<and> arrays (snd (state_of r)) 2 = embed_fields (embed ?u)
      \<and> arrays (snd (state_of r)) 5 = embed_fields (fst (state_of (drawList RichEmbed_limits ?u)))"
    using d(3) n(2) by auto
  from 1 2 show ?thesis unfolding d f by blast
qed

text \<open>
  Claim C9. The text shown above the embed by a render that gets as far as the
  message, in either mode: with the indicator enabled and more than one page it is
  \<open>Page\<close>, the page, \<open>of\<close>, the page count; with exactly one page, or with the
  indicator disabled, there is none. The render of FieldsEmbed that throws while it
  draws the page, and the render of Embeds without a message to edit, show nothing:
  the channel is as it was.
\<close>

theorem page_indicator_text:
  "(has_returned (FieldsEmbed_loadList limits toString c s1) \<and> pageIndicator s1 \<and> js_lt (Num 1) (pages s1) \<longrightarrow>
      (\<exists>a. channel (state_of (FieldsEmbed_loadList limits toString c s1)) = channel s1 @ [a]
          \<and> content_of a = Some (''Page '' @ toString (page s1) @ '' of '' @ toString (pages s1))))
   \<and> (has_returned (FieldsEmbed_loadList limits toString c s2) \<and> (pages s2 = Num 1 \<or> \<not> pageIndicator s2) \<longrightarrow>
      (\<exists>a. channel (state_of (FieldsEmbed_loadList limits toString c s2)) = channel s2 @ [a]
          \<and> content_of a = None))
   \<and> (\<not> has_returned (FieldsEmbed_loadList limits toString c s3) \<longrightarrow>
      channel (state_of (FieldsEmbed_loadList limits toString c s3)) = channel s3)
   \<and> (message s4 = Some m4 \<and> pageIndicator s4 \<and> js_lt (Num 1) (pages s4) \<longrightarrow>
      (\<exists>a. channel (state_of (Embeds_loadList toString c s4)) = channel s4 @ [a]
          \<and> content_of a = Some (''Page '' @ toString (page s4) @ '' of '' @ toString (pages s4))))
   \<and> (message s5 = Some m5 \<and> (pages s5 = Num 1 \<or> \<not> pageIndicator s5) \<longrightarrow>
      (\<exists>a. channel (state_of (Embeds_loadList toString c s5)) = channel s5 @ [a]
          \<and> content_of a = None))
   \<and> (message s6 = None \<longrightarrow>
      channel (state_of (Embeds_loadList toString c s6)) = channel s6)"
proof -
  have gt: "js_lt (Num 1) n \<Longrightarrow> \<not> js_strict_eq n (Num 1)" for n
    by (auto simp: js_strict_eq_def)
  have f: "has_returned (FieldsEmbed_loadList limits toString c s) \<Longrightarrow>
      \<exists>a. channel (state_of (FieldsEmbed_loadList limits toString c s)) = channel s @ [a]
         \<and> content_of a = shouldIndicate toString s" for s
    by (simp add: FieldsEmbed_loadList_channel split: option.split)
  have e: "message s = Some m \<Longrightarrow>
      \<exists>a. channel (state_of (Embeds_loadList toString c s)) = channel s @ [a]
         \<and> content_of a = shouldIndicate toString s" for s :: "'m Embeds" and m
    by (simp add: Embeds_loadList_channel)
  have 1: "has_returned (FieldsEmbed_loadList limits toString c s1) \<and> pageIndicator s1 \<and> js_lt (Num 1) (pages s1) \<longrightarrow>
      (\<exists>a. channel (state_of (FieldsEmbed_loadList limits toString c s1)) = channel s1 @ [a]
          \<and> content_of a = Some (''Page '' @ toString (page s1) @ '' of '' @ toString (pages s1)))"
    using f [of s1] gt [of "pages s1"] by (auto simp: shouldIndicate_def)
  have 2: "has_returned (FieldsEmbed_loadList limits toString c s2) \<and> (pages s2 = Num 1 \<or> \<not> pageIndicator s2) \<longrightarrow>
      (\<exists>a. channel (state_of (FieldsEmbed_loadList limits toString c s2)) = channel s2 @ [a]
          \<and> content_of a = None)"
    using f [of s2] by (auto simp: shouldIndicate_def js_strict_eq_def)
  have 3: "\<not> has_returned (FieldsEmbed_loadList limits toString c s3) \<longrightarrow>
      channel (state_of (FieldsEmbed_loadList limits toString c s3)) = channel s3"
    by (simp add: FieldsEmbed_loadList_throws_silently)
  have 4: "message s4 = Some m4 \<and> pageIndicator s4 \<and> js_lt (Num 1) (pages s4) \<longrightarrow>
      (\<exists>a. channel (state_of (Embeds_loadList toString c s4)) = channel s4 @ [a]
          \<and> content_of a = Some (''Page '' @ toString (page s4) @ '' of '' @ toString (pages s4)))"
    using e [of s4 m4] gt [of "pages s4"] by (auto simp: shouldIndicate_def)
  have 5: "message s5 = Some m5 \<and> (pages s5 = Num 1 \<or> \<not> pageIndicator s5) \<longrightarrow>
      (\<exists>a. channel (state_of (Embeds_loadList toString c s5)) = channel s5 @ [a]
          \<and> content_of a = None)"
    using e [of s5 m5] by (auto simp: shouldIndicate_def js_strict_eq_def)
  have 6: "message s6 = None \<longrightarrow> channel (state_of (Embeds_loadList toString c s6)) = channel s6"
    by (simp add: Embeds_loadList_without_message)
  from 1 2 3 4 5 6 show ?thesis by (intro conjI)
qed

text \<open>
  Three names, two to a page, on the first of two pages: \<open>Page 1 of 2\<close>, and nothing
  with the indicator switched off; with the formatter of empty lines the render
  throws and the channel stays empty. Three embeds on the second page:
  \<open>Page 2 of 3\<close>; one embed: nothing; no message to edit: the channel stays empty.
\<close>

theorem page_indicator_text_witness:
  "(\<exists>a. channel (state_of (FieldsEmbed_loadList RichEmbed_limits printNumber True
        ((exampleFieldsEmbed [''x'', ''y'', ''z''] (Num 2) (Num 1) None [id])\<lparr>pages := Num 2\<rparr>))) = [a]
      \<and> content_of a = Some ''Page 1 of 2'')
   \<and> (\<exists>a. channel (state_of (FieldsEmbed_loadList RichEmbed_limits printNumber True
        ((exampleFieldsEmbed [''x'', ''y'', ''z''] (Num 2) (Num 1) None [id])\<lparr>pages := Num 2, pageIndicator := False\<rparr>))) = [a]
      \<and> content_of a = None)
   \<and> channel (state_of (FieldsEmbed_loadList RichEmbed_limits printNumber True
        ((exampleFieldsEmbed [''x'', ''y'', ''z''] (Num 2) (Num 1) None [noText])\<lparr>pages := Num 2\<rparr>))) = []
   \<and> (\<exists>a. channel (state_of (Embeds_loadList printNumber True
        ((exampleEmbeds [''a'', ''b'', ''c''] (Num 2) (Some 4))\<lparr>pages := Num 3\<rparr>))) = [a]
      \<and> content_of a = Some ''Page 2 of 3'')
   \<and> (\<exists>a. channel (state_of (Embeds_loadList printNumber True
        ((exampleEmbeds [''a''] (Num 1) (Some 4))\<lparr>pages := Num 1\<rparr>))) = [a]
      \<and> content_of a = None)
   \<and> channel (state_of (Embeds_loadList printNumber True
        ((exampleEmbeds [''a'', ''b'', ''c''] (Num 2) None)\<lparr>pages := Num 3\<rparr>))) = []"
proof -
  let ?s1 = "(exampleFieldsEmbed [''x'', ''y'', ''z''] (Num 2) (Num 1) None [id])\<lparr>pages := Num 2\<rparr>"
  let ?s2 = "(exampleFieldsEmbed [''x'', ''y'', ''z''] (Num 2) (Num 1) None [id])\<lparr>pages := Num 2, pageIndicator := False\<rparr>"
  let ?s3 = "(exampleFieldsEmbed [''x'', ''y'', ''z''] (Num 2) (Num 1) None [noText])\<lparr>pages := Num 2\<rparr>"
  let ?s4 = "(exampleEmbeds [''a'', ''b'', ''c''] (Num 2) (Some 4))\<lparr>pages := Num 3\<rparr>"
  let ?s5 = "(exampleEmbeds [''a''] (Num 1) (Some 4))\<lparr>pages := Num 1\<rparr>"
  let ?s6 = "(exampleEmbeds [''a'', ''b'', ''c''] (Num 2) None)\<lparr>pages := Num 3\<rparr>"
  have r1: "has_returned (FieldsEmbed_loadList RichEmbed_limits printNumber True ?s1)"
    by (simp add: FieldsEmbed_loadList_returns drawList_example)
  have "has_returned (drawList RichEmbed_limits ?s2) = has_returned (drawList RichEmbed_limits ?s1)"
    using drawList_depends [of ?s2 ?s1 RichEmbed_limits] by simp
  then have r2: "has_returned (FieldsEmbed_loadList RichEmbed_limits printNumber True ?s2)"
    using r1 by (simp only: FieldsEmbed_loadList_returns)
  have r3: "\<not> has_returned (FieldsEmbed_loadList RichEmbed_limits printNumber True ?s3)"
    by (simp add: FieldsEmbed_loadList_returns drawList_blank_example)
  have a: "pageIndicator ?s1" "js_lt (Num 1) (pages ?s1)" "page ?s1 = Num 1" "pages ?s1 = Num 2"
    "channel ?s1 = []" "\<not> pageIndicator ?s2" "channel ?s2 = []" "channel ?s3 = []"
    "message ?s4 = Some 4" "pageIndicator ?s4" "js_lt (Num 1) (pages ?s4)" "page ?s4 = Num 2"
    "pages ?s4 = Num 3" "channel ?s4 = []" "message ?s5 = Some 4" "pages ?s5 = Num 1"
    "channel ?s5 = []" "message ?s6 = None" "channel ?s6 = []"
    by (simp_all add: exampleFieldsEmbed_def exampleEmbeds_def)
  have p: "printNumber (Num 1) = ''1''" "printNumber (Num 2) = ''2''" "printNumber (Num 3) = ''3''"
    by (simp_all add: truncate_toward_zero_def)
  from page_indicator_text [of RichEmbed_limits printNumber True ?s1 ?s2 ?s3 ?s4 4 ?s5 4 ?s6]
    r1 r2 r3 a
  show ?thesis
    by (simp only: p simp_thms append.simps)
qed

section \<open>Styling every embed\<close>



text \<open>An instance that stands at two places of the array is called twice.\<close>

lemma forEachEmbed_twice:
  "forEachEmbed (exampleMethod (JsString ''!'')) [0, 1, 0] exampleObjects =
     Returned (exampleObjects(0 := ''a!!'', 1 := ''b!''))"
  by (simp add: exampleMethod_def exampleObjects_def fun_upd_twist)




section \<open>The page stays in range\<close>

lemma back_in_range:
  assumes "js_le (Num 1) p" and "js_le p n"
  shows "js_le (Num 1) (Math_max (Num 1) (js_sub p (Num 1)))"
    and "js_le (Math_max (Num 1) (js_sub p (Num 1))) n"
  using assms by (cases p; cases n; simp add: Math_max_def js_sub_def)+

lemma forward_in_range:
  assumes "js_le (Num 1) p" and "js_le p n"
  shows "js_le (Num 1) (Math_min n (js_add p (Num 1)))"
    and "js_le (Math_min n (js_add p (Num 1))) n"
  using assms by (cases p; cases n; simp add: Math_min_def)+

lemma last_in_range:
  assumes "js_le (Num 1) p" and "js_le p n"
  shows "js_le (Num 1) n" and "js_le n n"
  using assms by (cases p; cases n; simp)+

lemma navigate_in_range:
  assumes "page_in_range s"
  shows "page_in_range (navigate a followup s)"
proof (cases a)
  case Back
  then show ?thesis using assms back_in_range [of "page s" "pages s"]
    by (simp add: page_in_range_def)
next
  case Jump
  then show ?thesis using assms
    by (simp add: page_in_range_def Let_def split: option.split)
next
  case Forward
  then show ?thesis using assms forward_in_range [of "page s" "pages s"]
    by (simp add: page_in_range_def)
next
  case First
  then show ?thesis using assms last_in_range(1) [of "page s" "pages s"]
    by (simp add: page_in_range_def)
next
  case Last
  then show ?thesis using assms last_in_range [of "page s" "pages s"]
    by (simp add: page_in_range_def)
next
  case Delete
  then show ?thesis using assms by simp
qed

lemma rerender_in_range: "page_in_range (rerender render s) = page_in_range s"
  by (simp add: rerender_def page_in_range_def split: option.split)

lemma dispatch_in_range:
  assumes "page_in_range s"
    and "\<And>e callback. hooks e = Some callback \<Longrightarrow> keeps_page callback"
  shows "page_in_range (dispatch hooks render ev s)"
proof (cases "resolve_navigation (navigationEmojis s) (emoji (fst ev))")
  case None
  show ?thesis
  proof (cases "hooks (emoji (fst ev))")
    case None
    with \<open>resolve_navigation (navigationEmojis s) (emoji (fst ev)) = None\<close> assms(1)
    show ?thesis by (simp add: dispatch_def)
  next
    case (Some callback)
    then have "keeps_page callback" by (rule assms(2))
    then have "page_in_range (callback (user (fst ev)) s)"
      using assms(1) by (simp add: keeps_page_def page_in_range_def)
    with Some \<open>resolve_navigation (navigationEmojis s) (emoji (fst ev)) = None\<close> assms(1)
    show ?thesis by (simp add: dispatch_def rerender_in_range)
  qed
next
  case (Some a)
  show ?thesis
  proof (cases "a = Delete")
    case True
    with Some assms(1) show ?thesis
      by (simp add: dispatch_def page_in_range_def split: option.split)
  next
    case False
    then have "dispatch hooks render ev s = s \<or>
               dispatch hooks render ev s = rerender render (navigate a (snd ev) s)"
      using Some by (cases a) (simp_all add: dispatch_def)
    then show ?thesis
      using assms(1) navigate_in_range [OF assms(1)] by (auto simp: rerender_in_range)
  qed
qed

text \<open>
  Claim C2. In a session whose page is within \<open>1 \<le> page \<le> pages\<close> when it starts to
  listen, and whose function hooks keep to their contract (they leave \<open>page\<close> and
  \<open>pages\<close> alone), the page is within \<open>1 \<le> page \<le> pages\<close> after every reaction event,
  whatever the events are: navigation, a jump with any follow-up, a function hook, an
  event that is discarded.
\<close>

theorem page_stays_in_range:
  assumes "page_in_range s"
    and "\<forall>e callback. hooks e = Some callback \<longrightarrow> keeps_page callback"
  shows "page_in_range (dispatch_all hooks render evs s)"
  using assms(1) unfolding dispatch_all_def
proof (induction evs arbitrary: s)
  case Nil
  then show ?case by simp
next
  case (Cons ev evs)
  have "page_in_range (dispatch hooks render ev s)"
    using Cons.prems assms(2) by (intro dispatch_in_range) auto
  then show ?case using Cons.IH by simp
qed

lemma keeps_page_reverseHook: "keeps_page reverseHook"
  by (simp add: keeps_page_def reverseHook_def)

lemma resolve_forward: "resolve_navigation exampleEmojis ''>'' = Some Forward"
  by (simp add: resolve_navigation_def exampleEmojis_def)

lemma resolve_jump: "resolve_navigation exampleEmojis ''^'' = Some Jump"
  by (simp add: resolve_navigation_def exampleEmojis_def)

lemma resolve_unbound: "resolve_navigation exampleEmojis ''r'' = None"
  by (simp add: resolve_navigation_def exampleEmojis_def)

lemma built_exampleEmbeds:
  "state_of (Embeds_build printNumber verifyPasses (exampleEmbeds [''a'', ''b'', ''c''] (Num 1) (Some 4)))
     = (exampleEmbeds [''a'', ''b'', ''c''] (Num 1) (Some 4))
         \<lparr>pages := Num 3, emitted := [''start''],
          channel := [Edit 4 (Some ''Page 1 of 3'') (Some ''a'')],
          state := Listening, timer := 30000\<rparr>"
  by (simp add: Embeds_build_def Let_def verifyPasses_def exampleEmbeds_def Embeds_loadList_def
      PaginationEmbed_loadList_def shouldIndicate_def js_length_def js_strict_eq_def
      currentEmbed_def js_sub_def truncate_toward_zero_def)

text \<open>
  The scenario of the specification, on three embeds after \<open>build\<close>: forward, the hook,
  forward, and a third forward that stays on the last page.
\<close>

theorem page_stays_in_range_witness:
  "page (dispatch_all exampleHooks exampleRender [press ''>'', press ''r'', press ''>'', press ''>'']
      (state_of (Embeds_build printNumber verifyPasses
         (exampleEmbeds [''a'', ''b'', ''c''] (Num 1) (Some 4))))) = Num 3
   \<and> page_in_range
       (dispatch_all exampleHooks exampleRender [press ''>'', press ''r'', press ''>'', press ''>'']
          (state_of (Embeds_build printNumber verifyPasses
             (exampleEmbeds [''a'', ''b'', ''c''] (Num 1) (Some 4)))))"
proof -
  let ?s = "state_of (Embeds_build printNumber verifyPasses
    (exampleEmbeds [''a'', ''b'', ''c''] (Num 1) (Some 4)))"
  have r: "page_in_range ?s"
    unfolding built_exampleEmbeds by (simp add: page_in_range_def exampleEmbeds_def)
  have h: "\<forall>e callback. exampleHooks e = Some callback \<longrightarrow>
      keeps_page (callback :: nat \<Rightarrow> string Embeds \<Rightarrow> string Embeds)"
    by (simp add: exampleHooks_def keeps_page_reverseHook)
  have p: "page (dispatch_all exampleHooks exampleRender
      [press ''>'', press ''r'', press ''>'', press ''>''] ?s) = Num 3"
    unfolding built_exampleEmbeds
    by (simp add: dispatch_all_def dispatch_def press_def exampleEmbeds_def resolve_forward
        resolve_unbound rerender_def Math_min_def exampleHooks_def reverseHook_def)
  from page_stays_in_range [OF r h, of exampleRender "[press ''>'', press ''r'', press ''>'', press ''>'']"] p
  show ?thesis by simp
qed

text \<open>The jump dialog: the follow-up \<open>2\<close> moves to page 2, \<open>9\<close> and \<open>two\<close> move nowhere.\<close>

lemma jump_examples:
  "page (navigate Jump (Some ''2'') ((exampleEmbeds [''a'', ''b'', ''c''] (Num 1) (Some 4))\<lparr>pages := Num 3\<rparr>)) = Num 2"
  "page (navigate Jump (Some ''9'') ((exampleEmbeds [''a'', ''b'', ''c''] (Num 1) (Some 4))\<lparr>pages := Num 3\<rparr>)) = Num 1"
  "page (navigate Jump (Some ''two'') ((exampleEmbeds [''a'', ''b'', ''c''] (Num 1) (Some 4))\<lparr>pages := Num 3\<rparr>)) = Num 1"
  "page (navigate Jump None ((exampleEmbeds [''a'', ''b'', ''c''] (Num 1) (Some 4))\<lparr>pages := Num 3\<rparr>)) = Num 1"
  by (simp_all add: Let_def parse_integer_def digit_of_def exampleEmbeds_def)

end
